theory Spec2Isabelle
  imports Main
begin

section \<open>Python strings\<close>

text \<open>
  A Python \<open>str\<close> is a sequence of Unicode code points. It is modelled as a list of
  code points (natural numbers), so that \<open>strip\<close>, \<open>split\<close>, \<open>in\<close>, \<open>replace\<close> and
  \<open>join\<close> work on code points as they do in Python. Text outside ASCII is written by
  its code points; ASCII text is written as a literal and converted with \<open>ucs\<close>.
\<close>

type_synonym ustr = "nat list"

definition ucs :: "string \<Rightarrow> ustr" where
  "ucs s = map of_char s"

text \<open>The code points for which \<open>str.isspace\<close> holds; \<open>str.strip()\<close> removes these.\<close>

definition isspace :: "nat \<Rightarrow> bool" where
  "isspace c \<longleftrightarrow>
     (0x09 \<le> c \<and> c \<le> 0x0D) \<or> (0x1C \<le> c \<and> c \<le> 0x20) \<or> c = 0x85 \<or> c = 0xA0 \<or>
     c = 0x1680 \<or> (0x2000 \<le> c \<and> c \<le> 0x200A) \<or> c = 0x2028 \<or> c = 0x2029 \<or>
     c = 0x202F \<or> c = 0x205F \<or> c = 0x3000"

text \<open>\<open>s.strip()\<close>: leading and trailing whitespace removed.\<close>

definition strip :: "ustr \<Rightarrow> ustr" where
  "strip s = rev (dropWhile isspace (rev (dropWhile isspace s)))"

text \<open>
  \<open>s.split(sep)\<close> for a separator of one character: the pieces between the separators,
  scanning from the left; \<open>cur\<close> is the piece being read. The result is never empty:
  \<open>''.split('\n')\<close> is \<open>['']\<close>.
\<close>

fun split_from :: "nat \<Rightarrow> ustr \<Rightarrow> ustr \<Rightarrow> ustr list" where
  "split_from sep cur [] = [cur]"
| "split_from sep cur (c # cs) =
     (if c = sep then cur # split_from sep [] cs else split_from sep (cur @ [c]) cs)"

definition split_chr :: "nat \<Rightarrow> ustr \<Rightarrow> ustr list" where
  "split_chr sep s = split_from sep [] s"

definition split_nl :: "ustr \<Rightarrow> ustr list" where
  "split_nl s = split_chr 10 s"

text \<open>\<open>sep.join(parts)\<close>.\<close>

fun join :: "ustr \<Rightarrow> ustr list \<Rightarrow> ustr" where
  "join sep [] = []"
| "join sep [l] = l"
| "join sep (l # l' # ls) = l @ sep @ join sep (l' # ls)"

definition join_nl :: "ustr list \<Rightarrow> ustr" where
  "join_nl ls = join [10] ls"

text \<open>\<open>s.startswith(k)\<close>, and \<open>k in s\<close>: \<open>k\<close> occurs in \<open>s\<close> as a contiguous run.\<close>

fun is_prefix :: "ustr \<Rightarrow> ustr \<Rightarrow> bool" where
  "is_prefix [] s = True"
| "is_prefix (k # ks) [] = False"
| "is_prefix (k # ks) (c # cs) = (k = c \<and> is_prefix ks cs)"

fun str_in :: "ustr \<Rightarrow> ustr \<Rightarrow> bool" where
  "str_in k [] = (k = [])"
| "str_in k (c # cs) = (is_prefix k (c # cs) \<or> str_in k cs)"

text \<open>
  \<open>s.replace(old, new)\<close>: every occurrence of \<open>old\<close>, found from the left without
  overlap, becomes \<open>new\<close>. For an empty \<open>old\<close> Python puts \<open>new\<close> before every
  character and at the end.
\<close>

function replace_str :: "ustr \<Rightarrow> ustr \<Rightarrow> ustr \<Rightarrow> ustr" where
  "replace_str [] new s = new @ concat (map (\<lambda>c. c # new) s)"
| "replace_str (k # ks) new [] = []"
| "replace_str (k # ks) new (c # cs) =
     (if is_prefix (k # ks) (c # cs) then new @ replace_str (k # ks) new (drop (length ks) cs)
      else c # replace_str (k # ks) new cs)"
  by pat_completeness auto
termination
  by (relation "measure (\<lambda>(old, new, s). length s)") auto

text \<open>\<open>str(n)\<close> for an integer: its decimal digits, with a minus sign when negative.\<close>

fun str_nat :: "nat \<Rightarrow> ustr" where
  "str_nat n = (if n < 10 then [48 + n] else str_nat (n div 10) @ [48 + n mod 10])"

declare str_nat.simps [simp del]

definition str_int :: "int \<Rightarrow> ustr" where
  "str_int i = (if i < 0 then ucs ''-'' @ str_nat (nat (- i)) else str_nat (nat i))"

text \<open>
  An \<open>Optional[str]\<close> inside an f-string: \<open>None\<close> prints as the four letters \<open>None\<close>.
\<close>

definition str_optional :: "ustr option \<Rightarrow> ustr" where
  "str_optional v = (case v of None \<Rightarrow> ucs ''None'' | Some s \<Rightarrow> s)"

section \<open>The content normalizer: \<open>NovelInfo._clean_content\<close>\<close>

text \<open>
  The markers of \<open>ad_keywords\<close>, in the order of the source: U+672C U+7AE0 U+5B8C
  ("end of this chapter"), U+624B U+6A5F U+7528 U+6236 U+8ACB U+8A2A U+554F ("mobile users
  please visit"), \<open>czbooks.net\<close>, \<open>////\<close>, \<open>----\<close>, and three fullwidth asterisks U+FF0A.
\<close>

definition ad_keywords :: "ustr list" where
  "ad_keywords =
     [[0x672C, 0x7AE0, 0x5B8C],
      [0x624B, 0x6A5F, 0x7528, 0x6236, 0x8ACB, 0x8A2A, 0x554F],
      ucs ''czbooks.net'',
      ucs ''////'',
      ucs ''----'',
      [0xFF0A, 0xFF0A, 0xFF0A]]"

text \<open>\<open>any(keyword in line for keyword in ad_keywords)\<close>.\<close>

definition any_keyword_in :: "ustr \<Rightarrow> bool" where
  "any_keyword_in line = list_ex (\<lambda>keyword. str_in keyword line) ad_keywords"

text \<open>
  The loop over \<open>lines\<close> that appends to \<open>cleaned_lines\<close> each line holding no marker.
\<close>

fun clean_loop :: "ustr list \<Rightarrow> ustr list \<Rightarrow> ustr list" where
  "clean_loop [] cleaned_lines = cleaned_lines"
| "clean_loop (line # lines) cleaned_lines =
     clean_loop lines
       (if \<not> any_keyword_in line then cleaned_lines @ [line] else cleaned_lines)"

definition clean_content :: "ustr \<Rightarrow> ustr" where
  "clean_content content =
     (let lines = map strip (split_nl content);
          lines = filter (\<lambda>line. line \<noteq> []) lines
      in join_nl (clean_loop lines []))"

section \<open>The document assembler: \<open>EpubGenerator\<close>\<close>

text \<open>
  \<open>_convert_text_to_html\<close>: the text is split at the line feeds, the pieces that are
  blank after trimming are dropped, and each remaining piece is put, as it is, between
  \<open><p>\<close> and \<open></p>\<close>.
\<close>

definition convert_text_to_html :: "ustr \<Rightarrow> ustr" where
  "convert_text_to_html text =
     (let paragraphs = split_nl text;
          html_paragraphs =
            map (\<lambda>p. ucs ''<p>'' @ p @ ucs ''</p>'') (filter (\<lambda>p. strip p \<noteq> []) paragraphs)
      in join_nl html_paragraphs)"

text \<open>
  \<open>_format_chapter_content\<close>: the f-string template of the source, line by line with its
  indentation, with the title put in twice and the converted text once.
\<close>

definition format_chapter_content :: "ustr \<Rightarrow> ustr \<Rightarrow> ustr" where
  \<open>format_chapter_content title content =
     ucs ''\<newline>'' @
     ucs ''        <html>\<newline>'' @
     ucs ''            <head>\<newline>'' @
     ucs ''                <title>'' @ title @ ucs ''</title>\<newline>'' @
     ucs ''                <link rel="stylesheet" href="style.css" type="text/css"/>\<newline>'' @
     ucs ''            </head>\<newline>'' @
     ucs ''            <body>\<newline>'' @
     ucs ''                <h1>'' @ title @ ucs ''</h1>\<newline>'' @
     ucs ''                '' @ convert_text_to_html content @ ucs ''\<newline>'' @
     ucs ''            </body>\<newline>'' @
     ucs ''        </html>\<newline>'' @
     ucs ''        ''\<close>

section \<open>Exceptions, HTTP responses and the event log\<close>

text \<open>
  An exception is a value: its class, as far as the \<open>except\<close> clauses of the program
  tell classes apart, and \<open>str(e)\<close>. \<open>RequestException\<close> stands for
  \<open>requests.RequestException\<close> and its subclasses (\<open>HTTPError\<close>, \<open>Timeout\<close>,
  \<open>ConnectionError\<close>); \<open>OtherException\<close> for any other subclass of \<open>Exception\<close>.
  Exceptions outside \<open>Exception\<close> (\<open>KeyboardInterrupt\<close>, \<open>SystemExit\<close>) and
  console output are not modelled.
\<close>

datatype exn_class = RequestException | ValueError | OtherException

datatype exn = Exn (exn_class: exn_class) (exn_str: ustr)

text \<open>
  The response of \<open>requests.get\<close>: status code, reason phrase, URL, and the body as text
  (read after \<open>response.encoding = 'utf-8'\<close>).
\<close>

record response =
  status_code :: int
  reason :: ustr
  response_url :: ustr
  response_text :: ustr

text \<open>
  \<open>response.raise_for_status()\<close> of the requests library: an \<open>HTTPError\<close> for a status
  from 400 to 599, nothing otherwise. \<open>None\<close> means that the call returns.
\<close>

definition raise_for_status :: "response \<Rightarrow> exn option" where
  "raise_for_status r =
     (if 400 \<le> status_code r \<and> status_code r < 500 then
        Some (Exn RequestException
          (str_int (status_code r) @ ucs '' Client Error: '' @ reason r @
           ucs '' for url: '' @ response_url r))
      else if 500 \<le> status_code r \<and> status_code r < 600 then
        Some (Exn RequestException
          (str_int (status_code r) @ ucs '' Server Error: '' @ reason r @
           ucs '' for url: '' @ response_url r))
      else None)"

text \<open>
  What the program does to the world, in the order it does it: the politeness delay before
  a request, the request itself, the fixed sleep before a retry, and the calls on the
  worker pool made by the thread that runs \<open>download_chapters_parallel\<close>.
\<close>

datatype event =
    Delay
  | Request ustr
  | RetrySleep
  | PoolCreated int
  | Submitted nat
  | Awaited nat
  | PoolShutdown

definition emit :: "event list \<Rightarrow> 'a \<times> event list \<Rightarrow> 'a \<times> event list" where
  "emit evs r = (fst r, evs @ snd r)"

definition bindE :: "exn + 'a \<Rightarrow> ('a \<Rightarrow> exn + 'b) \<Rightarrow> exn + 'b" where
  "bindE m f = (case m of Inl e \<Rightarrow> Inl e | Inr x \<Rightarrow> f x)"

section \<open>The fetcher: \<open>NovelInfo._request_with_retry\<close>\<close>

text \<open>
  The network is a parameter: \<open>net k\<close> is what the \<open>k\<close>-th call of \<open>requests.get\<close>
  made by this invocation does (counted from 0), either raising or returning a response.
  \<open>attempt_once\<close> is the body of the \<open>try\<close> after the delay: the request, then
  \<open>raise_for_status\<close>.
\<close>

definition attempt_once :: "exn + response \<Rightarrow> exn + response" where
  "attempt_once outcome =
     bindE outcome (\<lambda>response.
       case raise_for_status response of Some e \<Rightarrow> Inl e | None \<Rightarrow> Inr response)"

text \<open>
  The loop \<open>for attempt in range(max_retries)\<close>, entered at \<open>attempt\<close>. Only a
  \<open>RequestException\<close> is caught; it is raised again (as \<open>last_exception\<close>, which is the
  exception just caught) on the last attempt, and followed by the retry sleep otherwise.
  When the range is exhausted the generic exception is raised.
\<close>

function request_loop ::
  "(nat \<Rightarrow> exn + response) \<Rightarrow> ustr \<Rightarrow> int \<Rightarrow> int \<Rightarrow> (exn + response) \<times> event list"
where
  "request_loop net url max_retries attempt =
     (if attempt < max_retries then
        (case attempt_once (net (nat attempt)) of
           Inr response \<Rightarrow> (Inr response, [Delay, Request url])
         | Inl e \<Rightarrow>
             if exn_class e = RequestException then
               if attempt = max_retries - 1 then (Inl e, [Delay, Request url])
               else emit [Delay, Request url, RetrySleep]
                      (request_loop net url max_retries (attempt + 1))
             else (Inl e, [Delay, Request url]))
      else (Inl (Exn RequestException (ucs ''All retry attempts failed'')), []))"
  by pat_completeness auto
termination
  by (relation "measure (\<lambda>(net, url, max_retries, attempt). nat (max_retries - attempt))") auto

declare request_loop.simps [simp del]

definition request_with_retry ::
  "(nat \<Rightarrow> exn + response) \<Rightarrow> ustr \<Rightarrow> int \<Rightarrow> (exn + response) \<times> event list"
where
  "request_with_retry net url max_retries = request_loop net url max_retries 0"

section \<open>The page parser capability and the records of the crawler\<close>

text \<open>
  BeautifulSoup is outside the program and is a parameter: \<open>BeautifulSoup\<close> parses the
  text, \<open>select_one\<close> and \<open>select\<close> query the parsed page with a CSS selector. Each
  may raise. Of an element the program reads its text and its \<open>href\<close> attribute.
\<close>

record elem =
  elem_text :: ustr
  elem_href :: "ustr option"

record 'soup page_parser =
  BeautifulSoup :: "ustr \<Rightarrow> exn + 'soup"
  select_one :: "'soup \<Rightarrow> ustr \<Rightarrow> exn + elem option"
  select :: "'soup \<Rightarrow> ustr \<Rightarrow> exn + elem list"

text \<open>
  The dictionaries of the source. \<open>ChapterInfo\<close> has the keys \<open>title\<close> and \<open>url\<close>;
  \<open>ChapterContent\<close> the keys \<open>title\<close>, \<open>content\<close> and \<open>error\<close>; a downloaded
  chapter (the dictionary built by \<open>download_single\<close>) the keys \<open>title\<close> and
  \<open>content\<close>. The field names carry a prefix because a record field is a global name.
  In \<open>NovelData\<close> the key \<open>error\<close> may be absent: that is \<open>None\<close>.
\<close>

record ChapterInfo =
  ci_title :: ustr
  ci_url :: ustr

record ChapterContent =
  cc_title :: ustr
  cc_content :: ustr
  cc_error :: "ustr option"

record Chapter =
  ch_title :: ustr
  ch_content :: ustr

record NovelData =
  nd_title :: ustr
  nd_author :: ustr
  nd_status :: ustr
  nd_first_chapter :: "ustr option"
  nd_last_chapter :: "ustr option"
  nd_total_chapters :: int
  nd_chapters :: "ChapterInfo list"
  nd_error :: "ustr option"

section \<open>Catalog retrieval: \<open>NovelInfo.get_info\<close>\<close>

text \<open>One round of the loop over the chapter links: the URL is made absolute.\<close>

definition chapter_of_link :: "elem \<Rightarrow> ChapterInfo" where
  "chapter_of_link chapter =
     (let href = (case elem_href chapter of None \<Rightarrow> [] | Some h \<Rightarrow> h);
          href = (if is_prefix (ucs ''//czbooks.net'') href
                  then replace_str (ucs ''//czbooks.net'') [] href else href);
          chapter_url = ucs ''https://czbooks.net'' @ href
      in \<lparr>ci_title = strip (elem_text chapter), ci_url = chapter_url\<rparr>)"

text \<open>
  The selector of the serial status: \<open>.novel-detail .state td:contains("...") + td\<close>
  with the four characters U+9023 U+8F09 U+72C0 U+614B between the quotes.
\<close>

definition status_selector :: ustr where
  "status_selector =
     ucs ''.novel-detail .state td:contains('' @ [0x22, 0x9023, 0x8F09, 0x72C0, 0x614B, 0x22] @
     ucs '') + td''"

text \<open>
  The body of the \<open>try\<close> of \<open>get_info\<close>, after the response has arrived. The messages
  of the three \<open>ValueError\<close>s are written by their code points; the status defaults to
  U+672A U+77E5 ("unknown").
\<close>

definition get_info_page :: "'soup page_parser \<Rightarrow> response \<Rightarrow> exn + NovelData" where
  "get_info_page P response =
     bindE (BeautifulSoup P (response_text response)) (\<lambda>soup.
     bindE (select_one P soup (ucs ''.novel-detail .info .title'')) (\<lambda>title_elem.
     case title_elem of
       None \<Rightarrow> Inl (Exn ValueError [0x7121, 0x6CD5, 0x627E, 0x66F8, 0x540D])
     | Some title_elem \<Rightarrow>
     bindE (select_one P soup (ucs ''.novel-detail .info .author a'')) (\<lambda>author_elem.
     case author_elem of
       None \<Rightarrow> Inl (Exn ValueError
                 [0x7121, 0x6CD5, 0x627E, 0x5230, 0x4F5C, 0x8005, 0x8CC7, 0x8A0A])
     | Some author_elem \<Rightarrow>
     bindE (select P soup (ucs ''.chapter-list li a'')) (\<lambda>chapters.
     let chapter_list = map chapter_of_link chapters in
     if chapter_list = [] then
       Inl (Exn ValueError [0x7121, 0x6CD5, 0x7372, 0x7AE0, 0x7BC0, 0x5217, 0x8868])
     else
     let title = replace_str [0x300B] [] (replace_str [0x300A] [] (strip (elem_text title_elem)));
         author = strip (elem_text author_elem)
     in
     bindE (select_one P soup status_selector) (\<lambda>status_elem.
     let status = (case status_elem of
                     None \<Rightarrow> [0x672A, 0x77E5]
                   | Some status_elem \<Rightarrow> strip (elem_text status_elem))
     in Inr \<lparr>nd_title = title, nd_author = author, nd_status = status,
             nd_first_chapter = Some (ci_title (hd chapter_list)),
             nd_last_chapter = Some (ci_title (last chapter_list)),
             nd_total_chapters = int (length chapter_list),
             nd_chapters = chapter_list,
             nd_error = None\<rparr>)))))"

definition get_info_try ::
  "'soup page_parser \<Rightarrow> (nat \<Rightarrow> exn + response) \<Rightarrow> ustr \<Rightarrow> (exn + NovelData) \<times> event list"
where
  "get_info_try P net url =
     (case request_with_retry net url 3 of
        (Inl e, evs) \<Rightarrow> (Inl e, evs)
      | (Inr response, evs) \<Rightarrow> (get_info_page P response, evs))"

text \<open>
  \<open>get_info\<close>: the \<open>try\<close> and its \<open>except Exception\<close>, which builds the failure
  dictionary; the message starts with U+7372 U+53D6 U+8CC7 U+8A0A U+5931 U+6557, a colon
  and a space. The result is a sum so that a theorem can say that no exception leaves.
\<close>

definition get_info ::
  "'soup page_parser \<Rightarrow> (nat \<Rightarrow> exn + response) \<Rightarrow> ustr \<Rightarrow> (exn + NovelData) \<times> event list"
where
  "get_info P net url =
     (case get_info_try P net url of
        (Inr info, evs) \<Rightarrow> (Inr info, evs)
      | (Inl e, evs) \<Rightarrow>
          (Inr \<lparr>nd_title = [], nd_author = [], nd_status = [],
                nd_first_chapter = None, nd_last_chapter = None,
                nd_total_chapters = 0, nd_chapters = [],
                nd_error = Some ([0x7372, 0x53D6, 0x8CC7, 0x8A0A, 0x5931, 0x6557, 0x3A, 0x20]
                              @ exn_str e)\<rparr>, evs))"

section \<open>One chapter: \<open>NovelInfo.get_chapter_content\<close>\<close>

text \<open>
  The body of the \<open>try\<close> after the response has arrived. A title that holds both
  U+300A and U+300B (the book-title marks) keeps only what follows the last U+300B.
\<close>

definition get_chapter_page :: "'soup page_parser \<Rightarrow> response \<Rightarrow> exn + ChapterContent" where
  "get_chapter_page P response =
     bindE (BeautifulSoup P (response_text response)) (\<lambda>soup.
     bindE (select_one P soup (ucs ''.name'')) (\<lambda>title_elem.
     case title_elem of
       None \<Rightarrow> Inl (Exn ValueError
                 [0x7121, 0x6CD5, 0x627E, 0x5230, 0x7AE0, 0x7BC0, 0x6A19, 0x984C])
     | Some title_elem \<Rightarrow>
     bindE (select_one P soup (ucs ''.content'')) (\<lambda>content_elem.
     case content_elem of
       None \<Rightarrow> Inl (Exn ValueError
                 [0x7121, 0x6CD5, 0x627E, 0x5230, 0x7AE0, 0x7BC0, 0x5167, 0x5BB9])
     | Some content_elem \<Rightarrow>
     let content = clean_content (elem_text content_elem);
         title = strip (elem_text title_elem);
         title = (if str_in [0x300A] title \<and> str_in [0x300B] title
                  then strip (last (split_chr 0x300B title)) else title)
     in Inr \<lparr>cc_title = title, cc_content = content, cc_error = None\<rparr>)))"

definition get_chapter_try ::
  "'soup page_parser \<Rightarrow> (nat \<Rightarrow> exn + response) \<Rightarrow> ustr \<Rightarrow>
   (exn + ChapterContent) \<times> event list"
where
  "get_chapter_try P net chapter_url =
     (case request_with_retry net chapter_url 3 of
        (Inl e, evs) \<Rightarrow> (Inl e, evs)
      | (Inr response, evs) \<Rightarrow> (get_chapter_page P response, evs))"

text \<open>
  \<open>get_chapter_content\<close>: the \<open>try\<close> and its \<open>except Exception\<close>; the message starts
  with U+53D6 U+7AE0 U+7BC0 U+5167 U+5BB9 U+5931 U+6557, a colon and a space.
\<close>

definition get_chapter_content ::
  "'soup page_parser \<Rightarrow> (nat \<Rightarrow> exn + response) \<Rightarrow> ustr \<Rightarrow>
   (exn + ChapterContent) \<times> event list"
where
  "get_chapter_content P net chapter_url =
     (case get_chapter_try P net chapter_url of
        (Inr content, evs) \<Rightarrow> (Inr content, evs)
      | (Inl e, evs) \<Rightarrow>
          (Inr \<lparr>cc_title = [], cc_content = [],
                cc_error = Some ([0x53D6, 0x7AE0, 0x7BC0, 0x5167, 0x5BB9, 0x5931, 0x6557,
                                  0x3A, 0x20] @ exn_str e)\<rparr>, evs))"

section \<open>The parallel downloader: \<open>NovelInfo.download_chapters_parallel\<close>\<close>

text \<open>
  \<open>download_single\<close>, the unit of work: a content without error becomes a chapter, any
  other content becomes \<open>None\<close>. (\<open>not content['error']\<close> holds for \<open>None\<close> and for
  the empty string.)
\<close>

definition download_single ::
  "'soup page_parser \<Rightarrow> (nat \<Rightarrow> exn + response) \<Rightarrow> ChapterInfo \<Rightarrow>
   (exn + Chapter option) \<times> event list"
where
  "download_single P net chapter =
     (case get_chapter_content P net (ci_url chapter) of
        (Inl e, evs) \<Rightarrow> (Inl e, evs)
      | (Inr content, evs) \<Rightarrow>
          (if cc_error content = None \<or> cc_error content = Some []
           then (Inr (Some \<lparr>ch_title = cc_title content, ch_content = cc_content content\<rparr>), evs)
           else (Inr None, evs)))"

text \<open>
  The worker pool. The unit submitted \<open>i\<close>-th has its own network behaviour \<open>nets i\<close>
  and works on \<open>chapters ! i\<close>; a future is named by the index of its submission. The
  workers complete the units in an order the program does not control: the schedule
  \<open>sched\<close>, any list of indices. \<open>run_workers\<close> stores each outcome under the index of
  its unit, once.
\<close>

definition run_unit ::
  "'soup page_parser \<Rightarrow> (nat \<Rightarrow> nat \<Rightarrow> exn + response) \<Rightarrow> ChapterInfo list \<Rightarrow> nat \<Rightarrow>
   exn + Chapter option"
where
  "run_unit P nets chapters i = fst (download_single P (nets i) (chapters ! i))"

fun run_workers ::
  "'soup page_parser \<Rightarrow> (nat \<Rightarrow> nat \<Rightarrow> exn + response) \<Rightarrow> ChapterInfo list \<Rightarrow> nat list \<Rightarrow>
   (nat \<rightharpoonup> exn + Chapter option) \<Rightarrow> (nat \<rightharpoonup> exn + Chapter option)"
where
  "run_workers P nets chapters [] finished = finished"
| "run_workers P nets chapters (i # sched) finished =
     run_workers P nets chapters sched
       (if i < length chapters \<and> finished i = None
        then finished(i \<mapsto> run_unit P nets chapters i) else finished)"

text \<open>
  \<open>future.result()\<close> waits until the unit has run and gives its outcome (raising what the
  unit raised). A unit that the schedule has not completed is completed at that moment.
\<close>

definition future_result ::
  "'soup page_parser \<Rightarrow> (nat \<Rightarrow> nat \<Rightarrow> exn + response) \<Rightarrow> ChapterInfo list \<Rightarrow>
   (nat \<rightharpoonup> exn + Chapter option) \<Rightarrow> nat \<Rightarrow> exn + Chapter option"
where
  "future_result P nets chapters finished future =
     (case finished future of Some r \<Rightarrow> r | None \<Rightarrow> run_unit P nets chapters future)"

text \<open>
  The loop over \<open>futures\<close>, in the order of the list: each result is awaited, and
  appended to \<open>results\<close> when it is a chapter.
\<close>

fun collect_results ::
  "(nat \<Rightarrow> exn + Chapter option) \<Rightarrow> nat list \<Rightarrow> Chapter list \<Rightarrow>
   (exn + Chapter list) \<times> event list"
where
  "collect_results result_of [] results = (Inr results, [])"
| "collect_results result_of (future # futures) results =
     (case result_of future of
        Inl e \<Rightarrow> (Inl e, [Awaited future])
      | Inr result \<Rightarrow>
          emit [Awaited future]
            (collect_results result_of futures
               (case result of Some chapter \<Rightarrow> results @ [chapter] | None \<Rightarrow> results)))"

text \<open>
  \<open>download_chapters_parallel\<close>. \<open>ThreadPoolExecutor(max_workers=n)\<close> raises
  \<open>ValueError\<close> when \<open>n\<close> is not positive. Otherwise every chapter is submitted, in
  order, the results are collected, and leaving the \<open>with\<close> block shuts the pool down,
  also when an exception passes through it.
\<close>

definition download_chapters_parallel ::
  "'soup page_parser \<Rightarrow> (nat \<Rightarrow> nat \<Rightarrow> exn + response) \<Rightarrow> nat list \<Rightarrow> ChapterInfo list \<Rightarrow> int \<Rightarrow>
   (exn + Chapter list) \<times> event list"
where
  "download_chapters_parallel P nets sched chapters max_workers =
     (if max_workers \<le> 0 then
        (Inl (Exn ValueError (ucs ''max_workers must be greater than 0'')), [])
      else
        let futures = [0..<length chapters];
            finished = run_workers P nets chapters sched Map.empty
        in emit (PoolCreated max_workers # map Submitted futures)
             (case collect_results (future_result P nets chapters finished) futures [] of
                (r, evs) \<Rightarrow> (r, evs @ [PoolShutdown])))"

section \<open>The driver: range selection and the output filename in \<open>main\<close>\<close>

text \<open>
  The three choices of the menu, with their numbers already read. \<open>select_range\<close> gives
  \<open>start_idx\<close> and \<open>end_idx\<close>, or \<open>None\<close> when the input is refused and asked again.
\<close>

datatype choice = DownloadAll | DownloadRange int int | DownloadLatest int

definition select_range :: "NovelData \<Rightarrow> choice \<Rightarrow> (int \<times> int) option" where
  "select_range info c =
     (case c of
        DownloadAll \<Rightarrow> Some (0, int (length (nd_chapters info)))
      | DownloadRange start end \<Rightarrow>
          if 1 \<le> start \<and> start \<le> end \<and> end \<le> nd_total_chapters info
          then Some (start - 1, end) else None
      | DownloadLatest num \<Rightarrow>
          if 1 \<le> num \<and> num \<le> nd_total_chapters info
          then Some (nd_total_chapters info - num, nd_total_chapters info) else None)"

text \<open>
  The filename, from the range and the serial status. The status compared with is
  U+5DF2 U+5B8C U+7D50 ("completed"). The pieces of the f-strings are: U+7B2C ("number"),
  U+7AE0 ("chapter"), U+7AE0 U+5230 U+7B2C ("chapter, to number"), U+6700 U+65B0 ("latest")
  and U+5168 U+672C ("complete book").
\<close>

definition status_complete :: ustr where
  "status_complete = [0x5DF2, 0x5B8C, 0x7D50]"

definition derive_filename :: "NovelData \<Rightarrow> int \<Rightarrow> int \<Rightarrow> ustr" where
  "derive_filename info start_idx end_idx =
     (if start_idx = 0 \<and> end_idx = nd_total_chapters info then
        (if nd_status info \<noteq> status_complete then
           nd_title info @ ucs ''_'' @
           [0x7B2C] @ ucs ''1'' @ [0x7AE0, 0x5230, 0x7B2C] @ str_int (nd_total_chapters info) @
           [0x7AE0] @ ucs ''_'' @
           [0x6700, 0x65B0] @ str_optional (nd_last_chapter info) @ ucs ''.epub''
         else nd_title info @ ucs ''_'' @ [0x5168, 0x672C] @ ucs ''.epub'')
      else
        nd_title info @ ucs ''_'' @
        [0x7B2C] @ str_int (start_idx + 1) @ [0x7AE0, 0x5230, 0x7B2C] @ str_int end_idx @
        [0x7AE0] @ ucs ''.epub'')"

section \<open>Notions of the specification\<close>

text \<open>
  The normalizer as the specification words it: a line survives when, once trimmed, it is
  not empty and holds none of the markers.
\<close>

definition contains_marker :: "ustr \<Rightarrow> bool" where
  "contains_marker l \<longleftrightarrow> (\<exists>k \<in> set ad_keywords. \<exists>p t. l = p @ k @ t)"

definition surviving_lines :: "ustr \<Rightarrow> ustr list" where
  "surviving_lines x =
     filter (\<lambda>l. \<not> contains_marker l) (filter (\<lambda>l. l \<noteq> []) (map strip (split_nl x)))"

text \<open>
  The fixed text of the chapter template of \<open>_format_chapter_content\<close>, cut at the
  places where the title and the converted text go.
\<close>

definition frame_before_title :: ustr where
  "frame_before_title =
     ucs ''\<newline>        <html>\<newline>            <head>\<newline>                ''"

definition frame_before_heading :: ustr where
  \<open>frame_before_heading =
     ucs ''\<newline>                <link rel="stylesheet" href="style.css" type="text/css"/>\<newline>'' @
     ucs ''            </head>\<newline>            <body>\<newline>                ''\<close>

definition frame_before_text :: ustr where
  "frame_before_text = ucs ''\<newline>                ''"

definition frame_after_text :: ustr where
  "frame_after_text = ucs ''\<newline>            </body>\<newline>        </html>\<newline>        ''"

text \<open>
  The number of requests in a log, and the error of the \<open>k\<close>-th attempt, if it fails:
  raised by the request or, for a response from 400 to 599, by \<open>raise_for_status\<close>.
\<close>

definition requests_made :: "event list \<Rightarrow> nat" where
  "requests_made evs = length (filter (\<lambda>ev. case ev of Request u \<Rightarrow> True | _ \<Rightarrow> False) evs)"

definition attempt_error :: "(nat \<Rightarrow> exn + response) \<Rightarrow> nat \<Rightarrow> exn option" where
  "attempt_error net k = (case attempt_once (net k) of Inl e \<Rightarrow> Some e | Inr r \<Rightarrow> None)"

definition retry_exhausted :: exn where
  "retry_exhausted = Exn RequestException (ucs ''All retry attempts failed'')"

text \<open>
  The chapter that the unit submitted \<open>i\<close>-th produces, if it produces one, and the
  indices of the units that produce a chapter, in ascending order.
\<close>

definition unit_chapter ::
  "'soup page_parser \<Rightarrow> (nat \<Rightarrow> nat \<Rightarrow> exn + response) \<Rightarrow> ChapterInfo list \<Rightarrow> nat \<Rightarrow> Chapter option"
where
  "unit_chapter P nets chapters i =
     (case run_unit P nets chapters i of Inr (Some chapter) \<Rightarrow> Some chapter | _ \<Rightarrow> None)"

definition succeeded ::
  "'soup page_parser \<Rightarrow> (nat \<Rightarrow> nat \<Rightarrow> exn + response) \<Rightarrow> ChapterInfo list \<Rightarrow> nat list"
where
  "succeeded P nets chapters =
     filter (\<lambda>i. unit_chapter P nets chapters i \<noteq> None) [0..<length chapters]"

text \<open>The message of a failed chapter: the prefix of the source, then \<open>str(e)\<close>.\<close>

definition chapter_failure :: "exn \<Rightarrow> ChapterContent" where
  "chapter_failure e =
     \<lparr>cc_title = [], cc_content = [],
      cc_error = Some ([0x53D6, 0x7AE0, 0x7BC0, 0x5167, 0x5BB9, 0x5931, 0x6557, 0x3A, 0x20]
                       @ exn_str e)\<rparr>"

section \<open>Concrete environments for the examples\<close>

text \<open>
  A network on which every request fails with a \<open>RequestException\<close> whose message is
  the number of the attempt; a response with status 200; a parser that finds nothing; a
  parser that finds a title and a text in every page; and two chapter references.
\<close>

definition net_failing :: "nat \<Rightarrow> exn + response" where
  "net_failing k = Inl (Exn RequestException (str_nat k))"

definition response_ok :: response where
  "response_ok =
     \<lparr>status_code = 200, reason = ucs ''OK'', response_url = ucs ''u'',
      response_text = ucs ''page''\<rparr>"

definition net_ok :: "nat \<Rightarrow> exn + response" where
  "net_ok k = Inr response_ok"

definition parser_nothing :: "unit page_parser" where
  "parser_nothing =
     \<lparr>BeautifulSoup = (\<lambda>html. Inr ()),
      select_one = (\<lambda>soup selector. Inr None),
      select = (\<lambda>soup selector. Inr [])\<rparr>"

definition parser_chapter :: "unit page_parser" where
  "parser_chapter =
     \<lparr>BeautifulSoup = (\<lambda>html. Inr ()),
      select_one = (\<lambda>soup selector.
        if selector = ucs ''.name'' then Inr (Some \<lparr>elem_text = ucs '' One '', elem_href = None\<rparr>)
        else Inr (Some \<lparr>elem_text = ucs ''a <b> & c\<newline>----\<newline>'', elem_href = None\<rparr>)),
      select = (\<lambda>soup selector. Inr [])\<rparr>"

definition chapter_a :: ChapterInfo where
  "chapter_a = \<lparr>ci_title = ucs ''a'', ci_url = ucs ''https://czbooks.net/n/x/a''\<rparr>"

definition chapter_b :: ChapterInfo where
  "chapter_b = \<lparr>ci_title = ucs ''b'', ci_url = ucs ''https://czbooks.net/n/x/b''\<rparr>"

text \<open>Of two units, the first meets the failing network and the second the working one.\<close>

definition nets_first_fails :: "nat \<Rightarrow> nat \<Rightarrow> exn + response" where
  "nets_first_fails i = (if i = 0 then net_failing else net_ok)"

definition nets_failing :: "nat \<Rightarrow> nat \<Rightarrow> exn + response" where
  "nets_failing i = net_failing"

section \<open>Facts about the string operations\<close>

lemma is_prefix_iff: "is_prefix k s \<longleftrightarrow> (\<exists>t. s = k @ t)"
  by (induction k s rule: is_prefix.induct) auto

lemma str_in_iff: "str_in k s \<longleftrightarrow> (\<exists>p t. s = p @ k @ t)"
proof (induction s)
  case Nil
  then show ?case by auto
next
  case (Cons c cs)
  show ?case
  proof
    assume "str_in k (c # cs)"
    then consider "is_prefix k (c # cs)" | "str_in k cs" by auto
    then show "\<exists>p t. c # cs = p @ k @ t"
    proof cases
      case 1
      then obtain t where "c # cs = k @ t" by (auto simp: is_prefix_iff)
      then have "c # cs = [] @ k @ t" by simp
      then show ?thesis by blast
    next
      case 2
      then obtain p t where "cs = p @ k @ t" using Cons.IH by blast
      then have "c # cs = (c # p) @ k @ t" by simp
      then show ?thesis by blast
    qed
  next
    assume "\<exists>p t. c # cs = p @ k @ t"
    then obtain p t where pt: "c # cs = p @ k @ t" by blast
    show "str_in k (c # cs)"
    proof (cases p)
      case Nil
      with pt have "is_prefix k (c # cs)" by (auto simp: is_prefix_iff)
      then show ?thesis by simp
    next
      case (Cons a p')
      with pt have "cs = p' @ k @ t" by simp
      then have "str_in k cs" using Cons.IH by blast
      then show ?thesis by simp
    qed
  qed
qed

lemma split_from_acc: "split_from sep cur s = (cur @ hd (split_from sep [] s)) # tl (split_from sep [] s)"
proof (induction s arbitrary: cur)
  case Nil
  then show ?case by simp
next
  case (Cons c cs)
  show ?case
  proof (cases "c = sep")
    case True
    then show ?thesis by simp
  next
    case False
    have "split_from sep cur (c # cs) = split_from sep (cur @ [c]) cs" using False by simp
    also have "\<dots> = ((cur @ [c]) @ hd (split_from sep [] cs)) # tl (split_from sep [] cs)"
      by (rule Cons.IH)
    also have "\<dots> = (cur @ hd (split_from sep [] (c # cs))) # tl (split_from sep [] (c # cs))"
      using False Cons.IH [of "[c]"] by simp
    finally show ?thesis .
  qed
qed

lemma split_from_nonempty: "split_from sep cur s \<noteq> []"
  by (induction s arbitrary: cur) auto

lemma split_from_no_nl:
  "sep \<notin> set cur \<Longrightarrow> \<forall>l \<in> set (split_from sep cur s). sep \<notin> set l"
proof (induction s arbitrary: cur)
  case Nil
  then show ?case by simp
next
  case (Cons c cs)
  show ?case
  proof (cases "c = sep")
    case True
    have "\<forall>l \<in> set (split_from sep [] cs). sep \<notin> set l" by (rule Cons.IH) simp
    then show ?thesis using True Cons.prems by simp
  next
    case False
    have "\<forall>l \<in> set (split_from sep (cur @ [c]) cs). sep \<notin> set l"
      by (rule Cons.IH) (use False Cons.prems in simp)
    then show ?thesis using False by simp
  qed
qed

lemma split_nl_no_nl: "l \<in> set (split_nl s) \<Longrightarrow> 10 \<notin> set l"
  unfolding split_nl_def split_chr_def using split_from_no_nl [of 10 "[]" s] by simp

lemma split_from_line: "sep \<notin> set l \<Longrightarrow> split_from sep cur l = [cur @ l]"
  by (induction l arbitrary: cur) auto

lemma split_from_append_nl:
  "sep \<notin> set l \<Longrightarrow> split_from sep cur (l @ sep # s) = (cur @ l) # split_from sep [] s"
  by (induction l arbitrary: cur) auto

lemma split_join_lines:
  "ls \<noteq> [] \<Longrightarrow> \<forall>l \<in> set ls. 10 \<notin> set l \<Longrightarrow> split_nl (join_nl ls) = ls"
proof (induction ls rule: join.induct [of _ "[10]"])
  case (1 sep)
  then show ?case by simp
next
  case (2 sep l)
  then show ?case by (simp add: split_nl_def split_chr_def join_nl_def split_from_line)
next
  case (3 sep l l' ls)
  then have "split_nl (join_nl (l' # ls)) = l' # ls" by simp
  moreover have "10 \<notin> set l" using 3 by simp
  ultimately show ?case
    by (simp add: split_nl_def split_chr_def join_nl_def split_from_append_nl)
qed

lemma join_split: "join_nl (split_nl s) = s"
proof -
  have "join [10] (split_from 10 cur s) = cur @ s" for cur
  proof (induction s arbitrary: cur)
    case Nil
    then show ?case by simp
  next
    case (Cons c cs)
    show ?case
    proof (cases "c = 10")
      case True
      obtain x xs where x: "split_from 10 [] cs = x # xs"
        using split_from_nonempty [of 10 "[]" cs] by (cases "split_from 10 [] cs") auto
      have "join [10] (x # xs) = cs" using Cons.IH [of "[]"] x by simp
      then show ?thesis using True x by simp
    next
      case False
      then show ?thesis using Cons.IH [of "cur @ [c]"] by simp
    qed
  qed
  from this [of "[]"] show ?thesis by (simp add: join_nl_def split_nl_def split_chr_def)
qed

lemma strip_set: "set (strip s) \<subseteq> set s"
proof -
  have "set (strip s) = set (dropWhile isspace (rev (dropWhile isspace s)))"
    by (simp add: strip_def)
  also have "\<dots> \<subseteq> set (rev (dropWhile isspace s))" by (auto dest: set_dropWhileD)
  also have "\<dots> \<subseteq> set s" by (auto dest: set_dropWhileD)
  finally show ?thesis .
qed

lemma strip_idem: "strip (strip s) = strip s"
proof -
  define a where "a = dropWhile isspace s"
  define b where "b = rev (dropWhile isspace (rev a))"
  have b: "strip s = b" by (simp add: strip_def a_def b_def)
  have "a = rev (rev a)" by simp
  also have "\<dots> = rev (takeWhile isspace (rev a) @ dropWhile isspace (rev a))"
    by (simp only: takeWhile_dropWhile_id)
  also have "\<dots> = b @ rev (takeWhile isspace (rev a))"
    by (simp only: rev_append b_def)
  finally have ab: "a = b @ rev (takeWhile isspace (rev a))" .
  have front: "dropWhile isspace b = b"
  proof (cases b)
    case Nil
    then show ?thesis by simp
  next
    case (Cons x xs)
    from ab have "a = x # (xs @ rev (takeWhile isspace (rev a)))"
      by (simp only: Cons append_Cons)
    then have "a \<noteq> []" and "hd a = x" by (metis list.distinct(1), metis list.sel(1))
    then have "\<not> isspace x" using hd_dropWhile [of isspace s] by (simp add: a_def)
    then show ?thesis using Cons by simp
  qed
  have "strip b = rev (dropWhile isspace (rev b))" by (simp add: strip_def front)
  also have "\<dots> = rev (dropWhile isspace (dropWhile isspace (rev a)))" by (simp add: b_def)
  also have "\<dots> = b" by (simp add: b_def)
  finally show ?thesis by (simp add: b)
qed

lemma clean_loop_filter:
  "clean_loop lines cleaned = cleaned @ filter (\<lambda>line. \<not> any_keyword_in line) lines"
  by (induction lines arbitrary: cleaned) auto

lemma any_keyword_in_iff:
  "any_keyword_in line \<longleftrightarrow> (\<exists>k \<in> set ad_keywords. \<exists>p t. line = p @ k @ t)"
  by (simp add: any_keyword_in_def list_ex_iff str_in_iff)

section \<open>Properties of the content normalizer\<close>

lemma contains_marker_code: "contains_marker l = any_keyword_in l"
  by (simp add: contains_marker_def any_keyword_in_iff)

lemma clean_content_lines: "clean_content x = join_nl (surviving_lines x)"
  by (simp add: clean_content_def surviving_lines_def clean_loop_filter contains_marker_code)

lemma surviving_lines_props:
  assumes "l \<in> set (surviving_lines x)"
  shows "l \<noteq> []" and "\<not> contains_marker l" and "strip l = l" and "10 \<notin> set l"
proof -
  from assms obtain l0 where l0: "l0 \<in> set (split_nl x)" and l: "l = strip l0"
    and ne: "l \<noteq> []" and nm: "\<not> contains_marker l"
    by (auto simp: surviving_lines_def)
  show "l \<noteq> []" by (rule ne)
  show "\<not> contains_marker l" by (rule nm)
  show "strip l = l" by (simp add: l strip_idem)
  have "10 \<notin> set l0" using l0 by (rule split_nl_no_nl)
  then show "10 \<notin> set l" using strip_set [of l0] by (auto simp: l)
qed

lemma surviving_lines_join:
  assumes "\<forall>l \<in> set ls. l \<noteq> [] \<and> \<not> contains_marker l \<and> strip l = l \<and> 10 \<notin> set l"
  shows "surviving_lines (join_nl ls) = ls"
proof (cases "ls = []")
  case True
  then show ?thesis
    by (simp add: surviving_lines_def join_nl_def split_nl_def split_chr_def strip_def)
next
  case False
  then have "split_nl (join_nl ls) = ls" using assms by (simp add: split_join_lines)
  moreover have "map strip ls = ls" using assms by (simp add: map_idI)
  moreover have "filter (\<lambda>l. l \<noteq> []) ls = ls" using assms by simp
  moreover have "filter (\<lambda>l. \<not> contains_marker l) ls = ls" using assms by simp
  ultimately show ?thesis by (simp add: surviving_lines_def)
qed

text \<open>
  C5. For every input string, \<open>_clean_content\<close> splits it at the line feeds, trims each
  line, discards the empty lines and every line that contains one of the markers of
  \<open>ad_keywords\<close>, and joins the surviving lines with a single line feed. The function is
  total and deterministic (a HOL function of its argument alone), and when no line survives
  the result is the empty string.
\<close>

theorem clean_content_spec:
  "clean_content x =
     join_nl (filter (\<lambda>l. \<not> contains_marker l)
       (filter (\<lambda>l. l \<noteq> []) (map strip (split_nl x))))
   \<and> (surviving_lines x = [] \<longrightarrow> clean_content x = [])"
  using clean_content_lines [of x] by (auto simp: surviving_lines_def join_nl_def)

theorem clean_content_spec_witness:
  "surviving_lines (ucs ''  \<newline>see czbooks.net now\<newline>'') = []
   \<and> clean_content (ucs ''  \<newline>see czbooks.net now\<newline>'') = []"
  using clean_content_spec [of "ucs ''  \<newline>see czbooks.net now\<newline>''"]
  by (simp add: surviving_lines_def contains_marker_code any_keyword_in_def ad_keywords_def
      split_nl_def split_chr_def join_nl_def strip_def isspace_def ucs_def)

text \<open>
  C6. The normalizer is idempotent: cleaning an already cleaned text changes nothing.
\<close>

theorem clean_content_idempotent: "clean_content (clean_content x) = clean_content x"
proof -
  have "surviving_lines (join_nl (surviving_lines x)) = surviving_lines x"
    by (rule surviving_lines_join) (auto dest: surviving_lines_props)
  then show ?thesis by (simp add: clean_content_lines)
qed

section \<open>Properties of the document assembler\<close>

lemma join_member:
  assumes "l \<in> set ls"
  shows "\<exists>a b. join sep ls = a @ l @ b"
  using assms
proof (induction sep ls rule: join.induct)
  case (1 sep)
  then show ?case by simp
next
  case (2 sep x)
  then have "join sep [x] = [] @ l @ []" by simp
  then show ?case by blast
next
  case (3 sep x y ys)
  show ?case
  proof (cases "l = x")
    case True
    then have "join sep (x # y # ys) = [] @ l @ (sep @ join sep (y # ys))" by simp
    then show ?thesis by blast
  next
    case False
    then have "l \<in> set (y # ys)" using 3 by simp
    then obtain a b where "join sep (y # ys) = a @ l @ b" using 3 by blast
    then have "join sep (x # y # ys) = (x @ sep @ a) @ l @ b" by simp
    then show ?thesis by blast
  qed
qed

lemma convert_text_to_html_member:
  assumes "p \<in> set (split_nl text)" and "strip p \<noteq> []"
  shows "\<exists>a b. convert_text_to_html text = a @ (ucs ''<p>'' @ p @ ucs ''</p>'') @ b"
proof -
  have "ucs ''<p>'' @ p @ ucs ''</p>'' \<in>
        set (map (\<lambda>p. ucs ''<p>'' @ p @ ucs ''</p>'') (filter (\<lambda>p. strip p \<noteq> []) (split_nl text)))"
    using assms by auto
  then show ?thesis
    unfolding convert_text_to_html_def Let_def join_nl_def by (rule join_member)
qed

lemma format_chapter_content_frame:
  "format_chapter_content title content =
     frame_before_title @ ucs ''<title>'' @ title @ ucs ''</title>'' @
     frame_before_heading @ ucs ''<h1>'' @ title @ ucs ''</h1>'' @
     frame_before_text @ convert_text_to_html content @ frame_after_text"
  by (simp add: format_chapter_content_def frame_before_title_def frame_before_heading_def
      frame_before_text_def frame_after_text_def ucs_def)

text \<open>
  C10. The document assembler escapes nothing. \<open>_convert_text_to_html\<close> is the join of
  \<open><p>line</p>\<close> over the lines of the text that are not blank, each line as it is;
  \<open>_format_chapter_content\<close> is a fixed frame around the title (twice, inside
  \<open><title>\<close> and \<open><h1>\<close>) and the converted text, so the title and every non-blank
  line occur in the XHTML character for character, \<open><\<close> and \<open>&\<close> included.
\<close>

theorem format_chapter_content_verbatim:
  "convert_text_to_html content =
     join_nl (map (\<lambda>p. ucs ''<p>'' @ p @ ucs ''</p>'')
       (filter (\<lambda>p. strip p \<noteq> []) (split_nl content)))
   \<and> format_chapter_content title content =
       frame_before_title @ ucs ''<title>'' @ title @ ucs ''</title>'' @
       frame_before_heading @ ucs ''<h1>'' @ title @ ucs ''</h1>'' @
       frame_before_text @ convert_text_to_html content @ frame_after_text
   \<and> (\<forall>p \<in> set (split_nl content). strip p \<noteq> [] \<longrightarrow>
        (\<exists>a b. format_chapter_content title content =
           a @ (ucs ''<p>'' @ p @ ucs ''</p>'') @ b))"
proof (intro conjI ballI impI)
  show "convert_text_to_html content =
     join_nl (map (\<lambda>p. ucs ''<p>'' @ p @ ucs ''</p>'')
       (filter (\<lambda>p. strip p \<noteq> []) (split_nl content)))"
    by (simp add: convert_text_to_html_def)
next
  show "format_chapter_content title content =
       frame_before_title @ ucs ''<title>'' @ title @ ucs ''</title>'' @
       frame_before_heading @ ucs ''<h1>'' @ title @ ucs ''</h1>'' @
       frame_before_text @ convert_text_to_html content @ frame_after_text"
    by (rule format_chapter_content_frame)
next
  fix p
  assume "p \<in> set (split_nl content)" and "strip p \<noteq> []"
  then obtain a b where
    "convert_text_to_html content = a @ (ucs ''<p>'' @ p @ ucs ''</p>'') @ b"
    using convert_text_to_html_member by blast
  then have "format_chapter_content title content =
       (frame_before_title @ ucs ''<title>'' @ title @ ucs ''</title>'' @
        frame_before_heading @ ucs ''<h1>'' @ title @ ucs ''</h1>'' @
        frame_before_text @ a) @ (ucs ''<p>'' @ p @ ucs ''</p>'') @ (b @ frame_after_text)"
    by (simp add: format_chapter_content_frame)
  then show "\<exists>a b. format_chapter_content title content =
           a @ (ucs ''<p>'' @ p @ ucs ''</p>'') @ b" by blast
qed

text \<open>
  At the title \<open>a<b\<close> and the text \<open>x & y\<close>, blank line, \<open><i>z</i>\<close>: the second
  line of the text is not blank and stands in the chapter as \<open><p><i>z</i></p>\<close>.
\<close>

theorem format_chapter_content_verbatim_witness:
  "ucs ''<i>z</i>'' \<in> set (split_nl (ucs ''x & y\<newline>  \<newline><i>z</i>''))
   \<and> strip (ucs ''<i>z</i>'') \<noteq> []
   \<and> convert_text_to_html (ucs ''x & y\<newline>  \<newline><i>z</i>'') =
       ucs ''<p>x & y</p>\<newline><p><i>z</i></p>''
   \<and> (\<exists>a b. format_chapter_content (ucs ''a<b'') (ucs ''x & y\<newline>  \<newline><i>z</i>'') =
          a @ (ucs ''<p>'' @ ucs ''<i>z</i>'' @ ucs ''</p>'') @ b)"
proof -
  have m: "ucs ''<i>z</i>'' \<in> set (split_nl (ucs ''x & y\<newline>  \<newline><i>z</i>''))"
    by (simp add: split_nl_def split_chr_def ucs_def)
  have s: "strip (ucs ''<i>z</i>'') \<noteq> []"
    by (simp add: strip_def isspace_def ucs_def)
  have c: "convert_text_to_html (ucs ''x & y\<newline>  \<newline><i>z</i>'') =
       ucs ''<p>x & y</p>\<newline><p><i>z</i></p>''"
    by (simp add: convert_text_to_html_def split_nl_def split_chr_def join_nl_def strip_def
        isspace_def ucs_def)
  from format_chapter_content_verbatim
    [of "ucs ''x & y\<newline>  \<newline><i>z</i>''" "ucs ''a<b''"] m s
  have "\<exists>a b. format_chapter_content (ucs ''a<b'') (ucs ''x & y\<newline>  \<newline><i>z</i>'') =
          a @ (ucs ''<p>'' @ ucs ''<i>z</i>'' @ ucs ''</p>'') @ b"
    by blast
  with m s c show ?thesis by blast
qed

section \<open>Properties of the output filename\<close>

lemma select_range_DownloadRange:
  "select_range info (DownloadRange s e) =
     (if 1 \<le> s \<and> s \<le> e \<and> e \<le> nd_total_chapters info then Some (s - 1, e) else None)"
  by (simp add: select_range_def)

lemma select_range_bounds:
  assumes "select_range info c = Some (start_idx, end_idx)"
    and "nd_total_chapters info = int (length (nd_chapters info))"
  shows "0 \<le> start_idx \<and> start_idx \<le> end_idx \<and> end_idx \<le> nd_total_chapters info"
  using assms by (cases c) (auto simp: select_range_def split: if_splits)

text \<open>
  C7. With title \<open>t\<close>, last chapter title \<open>L\<close> and total count \<open>N\<close>: when the range is
  the whole catalog (\<open>start_idx = 0\<close> and \<open>end_idx = N\<close>) the filename is
  \<open>t_\<close>U+7B2C\<open>1\<close>U+7AE0 U+5230 U+7B2C\<open>N\<close>U+7AE0\<open>_\<close>U+6700 U+65B0\<open>L.epub\<close> if the status
  is not "completed" and \<open>t_\<close>U+5168 U+672C\<open>.epub\<close> if it is; for any other range
  \<open>[s, e]\<close>, counted from 1 and inclusive, it is
  \<open>t_\<close>U+7B2C\<open>s\<close>U+7AE0 U+5230 U+7B2C\<open>e\<close>U+7AE0\<open>.epub\<close>. Such a range is \<open>start_idx = s - 1\<close>
  and \<open>end_idx = e\<close>: that is what the menu's second choice computes for valid bounds.
\<close>

theorem derive_filename_cases:
  "(nd_status info \<noteq> status_complete \<and> nd_last_chapter info = Some L \<longrightarrow>
      derive_filename info 0 (nd_total_chapters info) =
        nd_title info @ ucs ''_'' @ [0x7B2C] @ ucs ''1'' @ [0x7AE0, 0x5230, 0x7B2C] @
        str_int (nd_total_chapters info) @ [0x7AE0] @ ucs ''_'' @ [0x6700, 0x65B0] @ L @
        ucs ''.epub'')
   \<and> (nd_status info = status_complete \<longrightarrow>
        derive_filename info 0 (nd_total_chapters info) =
          nd_title info @ ucs ''_'' @ [0x5168, 0x672C] @ ucs ''.epub'')
   \<and> (\<not> (s = 1 \<and> e = nd_total_chapters info) \<longrightarrow>
        derive_filename info (s - 1) e =
          nd_title info @ ucs ''_'' @ [0x7B2C] @ str_int s @ [0x7AE0, 0x5230, 0x7B2C] @
          str_int e @ [0x7AE0] @ ucs ''.epub'')
   \<and> (1 \<le> s \<and> s \<le> e \<and> e \<le> nd_total_chapters info \<longrightarrow>
        select_range info (DownloadRange s e) = Some (s - 1, e))"
  by (simp add: derive_filename_def str_optional_def select_range_DownloadRange)

text \<open>
  The scenarios of the specification, with the title \<open>T\<close> and ten chapters: the whole
  catalog of a serial still running, the whole catalog of a completed one, and the range
  from 3 to 7.
\<close>

theorem derive_filename_cases_witness:
  "derive_filename
     \<lparr>nd_title = ucs ''T'', nd_author = ucs ''A'', nd_status = ucs ''running'',
      nd_first_chapter = Some (ucs ''one''), nd_last_chapter = Some (ucs ''ten''),
      nd_total_chapters = 10, nd_chapters = [], nd_error = None\<rparr> 0 10 =
     ucs ''T_'' @ [0x7B2C] @ ucs ''1'' @ [0x7AE0, 0x5230, 0x7B2C] @ ucs ''10'' @ [0x7AE0] @
     ucs ''_'' @ [0x6700, 0x65B0] @ ucs ''ten.epub''
   \<and> derive_filename
     \<lparr>nd_title = ucs ''T'', nd_author = ucs ''A'', nd_status = status_complete,
      nd_first_chapter = Some (ucs ''one''), nd_last_chapter = Some (ucs ''ten''),
      nd_total_chapters = 10, nd_chapters = [], nd_error = None\<rparr> 0 10 =
     ucs ''T_'' @ [0x5168, 0x672C] @ ucs ''.epub''
   \<and> derive_filename
     \<lparr>nd_title = ucs ''T'', nd_author = ucs ''A'', nd_status = ucs ''running'',
      nd_first_chapter = Some (ucs ''one''), nd_last_chapter = Some (ucs ''ten''),
      nd_total_chapters = 10, nd_chapters = [], nd_error = None\<rparr> (3 - 1) 7 =
     ucs ''T_'' @ [0x7B2C] @ ucs ''3'' @ [0x7AE0, 0x5230, 0x7B2C] @ ucs ''7'' @ [0x7AE0] @
     ucs ''.epub''
   \<and> select_range
     \<lparr>nd_title = ucs ''T'', nd_author = ucs ''A'', nd_status = ucs ''running'',
      nd_first_chapter = Some (ucs ''one''), nd_last_chapter = Some (ucs ''ten''),
      nd_total_chapters = 10, nd_chapters = [], nd_error = None\<rparr> (DownloadRange 3 7) =
     Some (2, 7)"
  using
    derive_filename_cases
      [of "\<lparr>nd_title = ucs ''T'', nd_author = ucs ''A'', nd_status = ucs ''running'',
           nd_first_chapter = Some (ucs ''one''), nd_last_chapter = Some (ucs ''ten''),
           nd_total_chapters = 10, nd_chapters = [], nd_error = None\<rparr>" "ucs ''ten''" 3 7]
    derive_filename_cases
      [of "\<lparr>nd_title = ucs ''T'', nd_author = ucs ''A'', nd_status = status_complete,
           nd_first_chapter = Some (ucs ''one''), nd_last_chapter = Some (ucs ''ten''),
           nd_total_chapters = 10, nd_chapters = [], nd_error = None\<rparr>" "ucs ''ten''" 3 7]
  by (simp add: status_complete_def ucs_def str_int_def str_nat.simps)

text \<open>
  C1, as the specification states it, fails: two catalogs that agree on title, status and
  total count, with the same range, get different filenames when their last chapters
  differ, the range is the whole catalog and the serial is not completed.
\<close>

theorem derive_filename_last_chapter_counterexample:
  "derive_filename
     \<lparr>nd_title = ucs ''T'', nd_author = ucs ''A'', nd_status = ucs ''running'',
      nd_first_chapter = Some (ucs ''one''), nd_last_chapter = Some (ucs ''ten''),
      nd_total_chapters = 10, nd_chapters = [], nd_error = None\<rparr> 0 10
   \<noteq> derive_filename
     \<lparr>nd_title = ucs ''T'', nd_author = ucs ''A'', nd_status = ucs ''running'',
      nd_first_chapter = Some (ucs ''one''), nd_last_chapter = Some (ucs ''end''),
      nd_total_chapters = 10, nd_chapters = [], nd_error = None\<rparr> 0 10"
  by (simp add: derive_filename_def str_optional_def status_complete_def ucs_def)

text \<open>
  C1, amended. The filename is a function of title, status, total count, the range, and
  the last chapter's title: two catalogs that agree on all of these get the same filename,
  whatever their other fields are. The last chapter's title is not needed when the range
  is not the whole catalog or the serial is completed.
\<close>

theorem derive_filename_determined:
  assumes "nd_title a = nd_title b"
    and "nd_status a = nd_status b"
    and "nd_total_chapters a = nd_total_chapters b"
    and "nd_last_chapter a = nd_last_chapter b
         \<or> \<not> (start_idx = 0 \<and> end_idx = nd_total_chapters a)
         \<or> nd_status a = status_complete"
  shows "derive_filename a start_idx end_idx = derive_filename b start_idx end_idx"
  using assms by (auto simp: derive_filename_def)

theorem derive_filename_determined_witness:
  "derive_filename
     \<lparr>nd_title = ucs ''T'', nd_author = ucs ''A'', nd_status = ucs ''running'',
      nd_first_chapter = Some (ucs ''one''), nd_last_chapter = Some (ucs ''ten''),
      nd_total_chapters = 10, nd_chapters = [], nd_error = None\<rparr> 0 10
   = derive_filename
     \<lparr>nd_title = ucs ''T'', nd_author = ucs ''B'', nd_status = ucs ''running'',
      nd_first_chapter = Some (ucs ''first''), nd_last_chapter = Some (ucs ''ten''),
      nd_total_chapters = 10,
      nd_chapters = [\<lparr>ci_title = ucs ''first'', ci_url = ucs ''u''\<rparr>], nd_error = None\<rparr> 0 10
   \<and> derive_filename
     \<lparr>nd_title = ucs ''T'', nd_author = ucs ''A'', nd_status = ucs ''running'',
      nd_first_chapter = Some (ucs ''one''), nd_last_chapter = Some (ucs ''ten''),
      nd_total_chapters = 10, nd_chapters = [], nd_error = None\<rparr> 2 7
   = derive_filename
     \<lparr>nd_title = ucs ''T'', nd_author = ucs ''A'', nd_status = ucs ''running'',
      nd_first_chapter = Some (ucs ''one''), nd_last_chapter = Some (ucs ''end''),
      nd_total_chapters = 10, nd_chapters = [], nd_error = None\<rparr> 2 7"
proof
  show "derive_filename
     \<lparr>nd_title = ucs ''T'', nd_author = ucs ''A'', nd_status = ucs ''running'',
      nd_first_chapter = Some (ucs ''one''), nd_last_chapter = Some (ucs ''ten''),
      nd_total_chapters = 10, nd_chapters = [], nd_error = None\<rparr> 0 10
   = derive_filename
     \<lparr>nd_title = ucs ''T'', nd_author = ucs ''B'', nd_status = ucs ''running'',
      nd_first_chapter = Some (ucs ''first''), nd_last_chapter = Some (ucs ''ten''),
      nd_total_chapters = 10,
      nd_chapters = [\<lparr>ci_title = ucs ''first'', ci_url = ucs ''u''\<rparr>], nd_error = None\<rparr> 0 10"
    by (rule derive_filename_determined) simp_all
  show "derive_filename
     \<lparr>nd_title = ucs ''T'', nd_author = ucs ''A'', nd_status = ucs ''running'',
      nd_first_chapter = Some (ucs ''one''), nd_last_chapter = Some (ucs ''ten''),
      nd_total_chapters = 10, nd_chapters = [], nd_error = None\<rparr> 2 7
   = derive_filename
     \<lparr>nd_title = ucs ''T'', nd_author = ucs ''A'', nd_status = ucs ''running'',
      nd_first_chapter = Some (ucs ''one''), nd_last_chapter = Some (ucs ''end''),
      nd_total_chapters = 10, nd_chapters = [], nd_error = None\<rparr> 2 7"
    by (rule derive_filename_determined) simp_all
qed

section \<open>Properties of the fetcher\<close>

lemma attempt_once_http_status:
  assumes "400 \<le> status_code r" and "status_code r < 600"
  shows "\<exists>msg. attempt_once (Inr r) = Inl (Exn RequestException msg)"
  using assms by (simp add: attempt_once_def bindE_def raise_for_status_def)

lemma requests_made_emit:
  "requests_made (snd (emit evs r)) = requests_made evs + requests_made (snd r)"
  by (simp add: emit_def requests_made_def)

lemma request_loop_exhausted:
  "max_retries \<le> attempt \<Longrightarrow>
   request_loop net url max_retries attempt = (Inl retry_exhausted, [])"
  by (simp add: request_loop.simps retry_exhausted_def)

lemma request_loop_count:
  "0 \<le> attempt \<Longrightarrow>
   requests_made (snd (request_loop net url max_retries attempt)) \<le> nat (max_retries - attempt)"
proof (induction net url max_retries attempt rule: request_loop.induct)
  case (1 net url max_retries attempt)
  show ?case
  proof (cases "attempt < max_retries")
    case False
    then show ?thesis by (simp add: request_loop.simps requests_made_def)
  next
    case True
    show ?thesis
    proof (cases "attempt_once (net (nat attempt))")
      case (Inr r)
      then show ?thesis using True
        by (simp add: request_loop.simps [of net url max_retries attempt] requests_made_def)
    next
      case (Inl e)
      show ?thesis
      proof (cases "exn_class e = RequestException \<and> attempt \<noteq> max_retries - 1")
        case False
        then show ?thesis using True Inl
          by (auto simp: request_loop.simps [of net url max_retries attempt] requests_made_def)
      next
        case retry: True
        have "requests_made (snd (request_loop net url max_retries (attempt + 1)))
              \<le> nat (max_retries - (attempt + 1))"
          using "1.IH" [of e] True Inl retry "1.prems" by simp
        moreover have "request_loop net url max_retries attempt =
            emit [Delay, Request url, RetrySleep] (request_loop net url max_retries (attempt + 1))"
          using True Inl retry by (simp add: request_loop.simps [of net url max_retries attempt])
        ultimately show ?thesis using True
          by (simp add: requests_made_emit) (simp add: requests_made_def)
      qed
    qed
  qed
qed

text \<open>
  When every attempt from \<open>attempt\<close> on fails, the loop ends at some attempt \<open>k\<close> with
  the error of that attempt, having made the requests from \<open>attempt\<close> to \<open>k\<close>; it ends
  before the last attempt only on an exception that is not a \<open>RequestException\<close>.
\<close>

lemma request_loop_all_fail:
  assumes "0 \<le> attempt" and "attempt < max_retries"
    and "\<forall>k. attempt \<le> k \<and> k < max_retries \<longrightarrow> attempt_error net (nat k) \<noteq> None"
  shows "\<exists>k e. attempt \<le> k \<and> k < max_retries \<and> attempt_error net (nat k) = Some e \<and>
           fst (request_loop net url max_retries attempt) = Inl e \<and>
           requests_made (snd (request_loop net url max_retries attempt)) = nat (k - attempt) + 1 \<and>
           (k < max_retries - 1 \<longrightarrow> exn_class e \<noteq> RequestException)"
  using assms
proof (induction net url max_retries attempt rule: request_loop.induct)
  case (1 net url max_retries attempt)
  from "1.prems" obtain e where e: "attempt_once (net (nat attempt)) = Inl e"
    and ae: "attempt_error net (nat attempt) = Some e"
    by (cases "attempt_once (net (nat attempt))") (auto simp: attempt_error_def)
  show ?case
  proof (cases "exn_class e = RequestException \<and> attempt \<noteq> max_retries - 1")
    case False
    then have "request_loop net url max_retries attempt = (Inl e, [Delay, Request url])"
      using "1.prems" e by (auto simp: request_loop.simps [of net url max_retries attempt])
    then have "attempt \<le> attempt \<and> attempt < max_retries \<and>
           attempt_error net (nat attempt) = Some e \<and>
           fst (request_loop net url max_retries attempt) = Inl e \<and>
           requests_made (snd (request_loop net url max_retries attempt))
             = nat (attempt - attempt) + 1 \<and>
           (attempt < max_retries - 1 \<longrightarrow> exn_class e \<noteq> RequestException)"
      using "1.prems" ae False by (auto simp: requests_made_def)
    then show ?thesis by blast
  next
    case retry: True
    have step: "request_loop net url max_retries attempt =
        emit [Delay, Request url, RetrySleep] (request_loop net url max_retries (attempt + 1))"
      using "1.prems" e retry by (simp add: request_loop.simps [of net url max_retries attempt])
    have lt: "attempt + 1 < max_retries" using "1.prems" retry by simp
    have "\<exists>k e'. attempt + 1 \<le> k \<and> k < max_retries \<and> attempt_error net (nat k) = Some e' \<and>
           fst (request_loop net url max_retries (attempt + 1)) = Inl e' \<and>
           requests_made (snd (request_loop net url max_retries (attempt + 1)))
             = nat (k - (attempt + 1)) + 1 \<and>
           (k < max_retries - 1 \<longrightarrow> exn_class e' \<noteq> RequestException)"
      using "1.IH" [of e] "1.prems" e retry lt by simp
    then obtain k e' where k: "attempt + 1 \<le> k" "k < max_retries"
      "attempt_error net (nat k) = Some e'"
      "fst (request_loop net url max_retries (attempt + 1)) = Inl e'"
      "requests_made (snd (request_loop net url max_retries (attempt + 1)))
         = nat (k - (attempt + 1)) + 1"
      "k < max_retries - 1 \<longrightarrow> exn_class e' \<noteq> RequestException"
      by blast
    have "requests_made (snd (request_loop net url max_retries attempt)) = nat (k - attempt) + 1"
      using k(1,5) "1.prems"(1)
      by (simp add: step requests_made_emit) (simp add: requests_made_def nat_diff_distrib)
    moreover have "fst (request_loop net url max_retries attempt) = Inl e'"
      using k(4) by (simp add: step emit_def)
    ultimately have "attempt \<le> k \<and> k < max_retries \<and> attempt_error net (nat k) = Some e' \<and>
           fst (request_loop net url max_retries attempt) = Inl e' \<and>
           requests_made (snd (request_loop net url max_retries attempt)) = nat (k - attempt) + 1 \<and>
           (k < max_retries - 1 \<longrightarrow> exn_class e' \<noteq> RequestException)"
      using k by simp
    then show ?thesis by blast
  qed
qed

text \<open>
  C4. \<open>_request_with_retry\<close> makes at most \<open>max_retries\<close> requests. When the cap is
  positive and every attempt fails, it fails with the error of the last attempt it made,
  attempt \<open>k\<close> after \<open>k + 1\<close> requests; it stops before the cap only on an exception that
  is not a \<open>RequestException\<close>, which the loop does not catch. When the cap is 0 (or
  negative) no request is made and it fails with the generic "All retry attempts failed".
\<close>

theorem request_with_retry_attempts:
  "requests_made (snd (request_with_retry net url max_retries)) \<le> nat max_retries
   \<and> (0 < max_retries \<and> (\<forall>k. k < nat max_retries \<longrightarrow> attempt_error net k \<noteq> None) \<longrightarrow>
        (\<exists>k e. k < nat max_retries \<and> attempt_error net k = Some e \<and>
           fst (request_with_retry net url max_retries) = Inl e \<and>
           requests_made (snd (request_with_retry net url max_retries)) = k + 1 \<and>
           (k + 1 < nat max_retries \<longrightarrow> exn_class e \<noteq> RequestException)))
   \<and> (max_retries \<le> 0 \<longrightarrow>
        request_with_retry net url max_retries = (Inl retry_exhausted, []))"
proof (intro conjI impI)
  show "requests_made (snd (request_with_retry net url max_retries)) \<le> nat max_retries"
    using request_loop_count [of 0 net url max_retries] by (simp add: request_with_retry_def)
next
  assume a: "0 < max_retries \<and> (\<forall>k. k < nat max_retries \<longrightarrow> attempt_error net k \<noteq> None)"
  then have "\<forall>k. 0 \<le> k \<and> k < max_retries \<longrightarrow> attempt_error net (nat k) \<noteq> None"
    by (simp add: nat_less_iff)
  with a obtain k e where k: "0 \<le> k" "k < max_retries" "attempt_error net (nat k) = Some e"
    "fst (request_loop net url max_retries 0) = Inl e"
    "requests_made (snd (request_loop net url max_retries 0)) = nat (k - 0) + 1"
    "k < max_retries - 1 \<longrightarrow> exn_class e \<noteq> RequestException"
    using request_loop_all_fail [of 0 max_retries net url] by auto
  have "nat k < nat max_retries \<and> attempt_error net (nat k) = Some e \<and>
           fst (request_with_retry net url max_retries) = Inl e \<and>
           requests_made (snd (request_with_retry net url max_retries)) = nat k + 1 \<and>
           (nat k + 1 < nat max_retries \<longrightarrow> exn_class e \<noteq> RequestException)"
    using k by (auto simp: request_with_retry_def)
  then show "\<exists>k e. k < nat max_retries \<and> attempt_error net k = Some e \<and>
           fst (request_with_retry net url max_retries) = Inl e \<and>
           requests_made (snd (request_with_retry net url max_retries)) = k + 1 \<and>
           (k + 1 < nat max_retries \<longrightarrow> exn_class e \<noteq> RequestException)"
    by blast
next
  assume "max_retries \<le> 0"
  then show "request_with_retry net url max_retries = (Inl retry_exhausted, [])"
    by (simp add: request_with_retry_def request_loop_exhausted)
qed

text \<open>
  On the failing network with the default cap of 3, three requests are made and the
  error is that of the third attempt (numbered 2); with the cap 0 the error is the generic
  one.
\<close>

theorem request_with_retry_attempts_witness:
  "(0::int) < 3
   \<and> attempt_error net_failing 0 \<noteq> None \<and> attempt_error net_failing 1 \<noteq> None
   \<and> attempt_error net_failing 2 \<noteq> None
   \<and> request_with_retry net_failing (ucs ''u'') 3 =
       (Inl (Exn RequestException (ucs ''2'')),
        [Delay, Request (ucs ''u''), RetrySleep, Delay, Request (ucs ''u''), RetrySleep,
         Delay, Request (ucs ''u'')])
   \<and> requests_made (snd (request_with_retry net_failing (ucs ''u'') 3)) = 3
   \<and> (0::int) \<le> 0
   \<and> request_with_retry net_failing (ucs ''u'') 0 = (Inl retry_exhausted, [])"
  using request_with_retry_attempts [of net_failing "ucs ''u''" 3]
    request_with_retry_attempts [of net_failing "ucs ''u''" 0]
  by (simp add: request_with_retry_def request_loop.simps attempt_once_def attempt_error_def
      bindE_def net_failing_def emit_def requests_made_def str_nat.simps ucs_def)

section \<open>Properties of catalog retrieval\<close>

text \<open>A catalog read from a page carries no error and is populated.\<close>

lemma get_info_page_populated:
  assumes "get_info_page P response = Inr info"
  shows "nd_error info = None \<and> nd_chapters info \<noteq> [] \<and>
         nd_total_chapters info = int (length (nd_chapters info)) \<and>
         nd_first_chapter info = Some (ci_title (hd (nd_chapters info))) \<and>
         nd_last_chapter info = Some (ci_title (last (nd_chapters info)))"
  using assms unfolding get_info_page_def bindE_def Let_def
  by (auto split: sum.splits option.splits if_splits)

lemma get_info_try_populated:
  assumes "get_info_try P net url = (Inr info, evs)"
  shows "nd_error info = None \<and> nd_chapters info \<noteq> [] \<and>
         nd_total_chapters info = int (length (nd_chapters info))"
proof -
  from assms obtain response where "get_info_page P response = Inr info"
    by (auto simp: get_info_try_def split: prod.splits sum.splits)
  then show ?thesis using get_info_page_populated by blast
qed

text \<open>
  C9. \<open>get_info\<close> never raises: whatever the network and the parser do, it returns a
  dictionary. When that dictionary carries an error, title, author and status are empty,
  first and last chapter are \<open>None\<close>, the count is 0 and the chapter list is empty.
\<close>

theorem get_info_never_raises:
  "\<exists>info evs. get_info P net url = (Inr info, evs) \<and>
     (nd_error info \<noteq> None \<longrightarrow>
        nd_title info = [] \<and> nd_author info = [] \<and> nd_status info = [] \<and>
        nd_first_chapter info = None \<and> nd_last_chapter info = None \<and>
        nd_total_chapters info = 0 \<and> nd_chapters info = [])"
proof (cases "get_info_try P net url")
  case (Pair r evs)
  show ?thesis
  proof (cases r)
    case (Inl e)
    with Pair show ?thesis by (simp add: get_info_def)
  next
    case (Inr info)
    with Pair have "nd_error info = None" using get_info_try_populated by blast
    with Pair Inr show ?thesis by (simp add: get_info_def)
  qed
qed

text \<open>
  On the failing network the catalog carries the error of the third attempt and nothing
  else; on the working network with a parser that finds no title it carries the
  \<open>ValueError\<close> of the missing title and nothing else.
\<close>

theorem get_info_never_raises_witness:
  "get_info parser_nothing net_failing (ucs ''u'') =
     (Inr \<lparr>nd_title = [], nd_author = [], nd_status = [],
           nd_first_chapter = None, nd_last_chapter = None,
           nd_total_chapters = 0, nd_chapters = [],
           nd_error = Some ([0x7372, 0x53D6, 0x8CC7, 0x8A0A, 0x5931, 0x6557, 0x3A, 0x20]
                         @ ucs ''2'')\<rparr>,
      [Delay, Request (ucs ''u''), RetrySleep, Delay, Request (ucs ''u''), RetrySleep,
       Delay, Request (ucs ''u'')])
   \<and> get_info parser_nothing net_ok (ucs ''u'') =
     (Inr \<lparr>nd_title = [], nd_author = [], nd_status = [],
           nd_first_chapter = None, nd_last_chapter = None,
           nd_total_chapters = 0, nd_chapters = [],
           nd_error = Some ([0x7372, 0x53D6, 0x8CC7, 0x8A0A, 0x5931, 0x6557, 0x3A, 0x20]
                         @ [0x7121, 0x6CD5, 0x627E, 0x66F8, 0x540D])\<rparr>,
      [Delay, Request (ucs ''u'')])"
  using get_info_never_raises [of parser_nothing net_failing "ucs ''u''"]
    get_info_never_raises [of parser_nothing net_ok "ucs ''u''"]
  by (simp add: get_info_def get_info_try_def get_info_page_def request_with_retry_def
      request_loop.simps attempt_once_def raise_for_status_def bindE_def net_failing_def
      net_ok_def response_ok_def parser_nothing_def emit_def str_nat.simps ucs_def)

section \<open>Properties of the parallel downloader\<close>

lemma get_chapter_page_no_error:
  "get_chapter_page P response = Inr content \<Longrightarrow> cc_error content = None"
  unfolding get_chapter_page_def bindE_def Let_def
  by (auto split: sum.splits option.splits if_splits)

lemma get_chapter_try_no_error:
  assumes "get_chapter_try P net url = (Inr content, evs)"
  shows "cc_error content = None"
proof -
  from assms obtain response where "get_chapter_page P response = Inr content"
    by (auto simp: get_chapter_try_def split: prod.splits sum.splits)
  then show ?thesis by (rule get_chapter_page_no_error)
qed

text \<open>
  The three ways a unit fails: the fetcher fails (no connection, a timeout, or a status
  from 400 to 599 on the last attempt), the parser raises, or an element is missing.
\<close>

lemma get_chapter_try_fetch_failure:
  "fst (request_with_retry net url 3) = Inl e \<Longrightarrow> fst (get_chapter_try P net url) = Inl e"
  by (cases "request_with_retry net url 3") (simp add: get_chapter_try_def)

lemma get_chapter_page_parser_raises:
  "BeautifulSoup P (response_text response) = Inl e \<Longrightarrow> get_chapter_page P response = Inl e"
  by (simp add: get_chapter_page_def bindE_def)

lemma get_chapter_page_title_missing:
  "BeautifulSoup P (response_text response) = Inr soup \<Longrightarrow>
   select_one P soup (ucs ''.name'') = Inr None \<Longrightarrow>
   \<exists>msg. get_chapter_page P response = Inl (Exn ValueError msg)"
  by (simp add: get_chapter_page_def bindE_def)

lemma get_chapter_page_content_missing:
  "BeautifulSoup P (response_text response) = Inr soup \<Longrightarrow>
   select_one P soup (ucs ''.name'') = Inr (Some title_elem) \<Longrightarrow>
   select_one P soup (ucs ''.content'') = Inr None \<Longrightarrow>
   \<exists>msg. get_chapter_page P response = Inl (Exn ValueError msg)"
  by (simp add: get_chapter_page_def bindE_def)

lemma get_chapter_try_page_failure:
  "request_with_retry net url 3 = (Inr response, evs) \<Longrightarrow>
   get_chapter_page P response = Inl e \<Longrightarrow>
   fst (get_chapter_try P net url) = Inl e"
  by (simp add: get_chapter_try_def)

lemma get_chapter_content_cases:
  "(\<exists>content evs. get_chapter_try P net url = (Inr content, evs) \<and>
      get_chapter_content P net url = (Inr content, evs) \<and> cc_error content = None)
   \<or> (\<exists>e evs. get_chapter_try P net url = (Inl e, evs) \<and>
      get_chapter_content P net url = (Inr (chapter_failure e), evs))"
proof (cases "get_chapter_try P net url")
  case (Pair r evs)
  show ?thesis
  proof (cases r)
    case (Inl e)
    with Pair show ?thesis by (simp add: get_chapter_content_def chapter_failure_def)
  next
    case (Inr content)
    with Pair have "cc_error content = None" using get_chapter_try_no_error by blast
    with Pair Inr show ?thesis by (simp add: get_chapter_content_def)
  qed
qed

lemma download_single_cases:
  "(\<exists>content evs. get_chapter_try P net (ci_url chapter) = (Inr content, evs) \<and>
      download_single P net chapter =
        (Inr (Some \<lparr>ch_title = cc_title content, ch_content = cc_content content\<rparr>), evs))
   \<or> (\<exists>e evs. get_chapter_try P net (ci_url chapter) = (Inl e, evs) \<and>
      download_single P net chapter = (Inr None, evs))"
  using get_chapter_content_cases [of P net "ci_url chapter"]
  by (auto simp: download_single_def chapter_failure_def)

lemma run_unit_cases:
  "(\<exists>content. fst (get_chapter_try P (nets i) (ci_url (chapters ! i))) = Inr content \<and>
      run_unit P nets chapters i =
        Inr (Some \<lparr>ch_title = cc_title content, ch_content = cc_content content\<rparr>))
   \<or> (\<exists>e. fst (get_chapter_try P (nets i) (ci_url (chapters ! i))) = Inl e \<and>
      run_unit P nets chapters i = Inr None)"
  using download_single_cases [of P "nets i" "chapters ! i"]
  by (auto simp: run_unit_def)

lemma run_unit_returns: "run_unit P nets chapters i = Inr (unit_chapter P nets chapters i)"
  using run_unit_cases [of P nets i chapters] by (auto simp: unit_chapter_def)

text \<open>
  Whatever the schedule, a stored outcome is the outcome of its own unit, so a future
  gives the outcome of its unit.
\<close>

lemma run_workers_sound:
  assumes "\<forall>i r. finished i = Some r \<longrightarrow> r = run_unit P nets chapters i"
  shows "\<forall>i r. run_workers P nets chapters sched finished i = Some r \<longrightarrow>
           r = run_unit P nets chapters i"
  using assms
proof (induction sched arbitrary: finished)
  case Nil
  then show ?case by simp
next
  case (Cons j sched)
  let ?next = "if j < length chapters \<and> finished j = None
               then finished(j \<mapsto> run_unit P nets chapters j) else finished"
  have "\<forall>i r. ?next i = Some r \<longrightarrow> r = run_unit P nets chapters i"
    using Cons.prems by simp
  then have "\<forall>i r. run_workers P nets chapters sched ?next i = Some r \<longrightarrow>
               r = run_unit P nets chapters i"
    by (rule Cons.IH)
  then show ?case by simp
qed

lemma future_result_eq:
  "future_result P nets chapters (run_workers P nets chapters sched Map.empty) i =
     run_unit P nets chapters i"
  using run_workers_sound [of Map.empty P nets chapters sched]
  by (auto simp: future_result_def split: option.splits)

lemma collect_results_all:
  assumes "\<forall>i \<in> set futures. result_of i = Inr (chapter_of i)"
  shows "collect_results result_of futures results =
           (Inr (results @ map (\<lambda>i. the (chapter_of i)) (filter (\<lambda>i. chapter_of i \<noteq> None) futures)),
            map Awaited futures)"
  using assms
proof (induction futures arbitrary: results)
  case Nil
  then show ?case by simp
next
  case (Cons i futures)
  then show ?case by (cases "chapter_of i") (auto simp: emit_def)
qed

lemma download_chapters_parallel_eq:
  assumes "0 < max_workers"
  shows "download_chapters_parallel P nets sched chapters max_workers =
           (Inr (map (\<lambda>i. the (unit_chapter P nets chapters i)) (succeeded P nets chapters)),
            PoolCreated max_workers # map Submitted [0..<length chapters] @
            map Awaited [0..<length chapters] @ [PoolShutdown])"
proof -
  have "collect_results
          (future_result P nets chapters (run_workers P nets chapters sched Map.empty))
          [0..<length chapters] [] =
        (Inr ([] @ map (\<lambda>i. the (unit_chapter P nets chapters i))
                (filter (\<lambda>i. unit_chapter P nets chapters i \<noteq> None) [0..<length chapters])),
         map Awaited [0..<length chapters])"
    by (rule collect_results_all) (simp add: future_result_eq run_unit_returns)
  then show ?thesis using assms
    by (simp add: download_chapters_parallel_def succeeded_def emit_def Let_def)
qed

lemma succeeded_sorted:
  "sorted_wrt (<) (succeeded P nets chapters) \<and> distinct (succeeded P nets chapters) \<and>
   set (succeeded P nets chapters) \<subseteq> {..<length chapters}"
  by (auto simp: succeeded_def sorted_wrt_filter)

lemma unit_chapter_eq:
  "unit_chapter P nets chapters i =
     (case fst (get_chapter_try P (nets i) (ci_url (chapters ! i))) of
        Inl e \<Rightarrow> None
      | Inr content \<Rightarrow> Some \<lparr>ch_title = cc_title content, ch_content = cc_content content\<rparr>)"
  using run_unit_cases [of P nets i chapters] by (auto simp: unit_chapter_def)

text \<open>
  C2. Whatever the chapter list, the concurrency bound and the order in which the workers
  complete the units, a batch returned by \<open>download_chapters_parallel\<close> is the list of
  the chapters of the successful units taken by ascending index of submission: the order
  of the chapter references is kept and no index occurs twice. A positive bound always
  gives a batch; with any other bound the pool cannot be built and there is no batch.
\<close>

theorem download_chapters_parallel_order:
  "(fst (download_chapters_parallel P nets sched chapters max_workers) = Inr batch \<longrightarrow>
      batch = map (\<lambda>i. the (unit_chapter P nets chapters i)) (succeeded P nets chapters))
   \<and> (0 < max_workers \<longrightarrow>
        (\<exists>b. fst (download_chapters_parallel P nets sched chapters max_workers) = Inr b))
   \<and> sorted_wrt (<) (succeeded P nets chapters)
   \<and> distinct (succeeded P nets chapters)
   \<and> set (succeeded P nets chapters) =
       {i. i < length chapters \<and> unit_chapter P nets chapters i \<noteq> None}"
proof (intro conjI impI)
  assume r: "fst (download_chapters_parallel P nets sched chapters max_workers) = Inr batch"
  then have "0 < max_workers"
    by (cases "0 < max_workers") (simp_all add: download_chapters_parallel_def)
  then show "batch = map (\<lambda>i. the (unit_chapter P nets chapters i)) (succeeded P nets chapters)"
    using r by (simp add: download_chapters_parallel_eq)
next
  assume "0 < max_workers"
  then show "\<exists>b. fst (download_chapters_parallel P nets sched chapters max_workers) = Inr b"
    by (simp add: download_chapters_parallel_eq)
next
  show "sorted_wrt (<) (succeeded P nets chapters)" using succeeded_sorted by blast
next
  show "distinct (succeeded P nets chapters)" using succeeded_sorted by blast
next
  show "set (succeeded P nets chapters) =
       {i. i < length chapters \<and> unit_chapter P nets chapters i \<noteq> None}"
    by (auto simp: succeeded_def)
qed

text \<open>
  Facts about the concrete environments: on the failing network a chapter fails with the
  error of the third attempt; on the working network the parser's page gives the title
  \<open>One\<close> and the text \<open>a <b> & c\<close>.
\<close>

lemma get_chapter_try_failing:
  "get_chapter_try parser_chapter net_failing url =
     (Inl (Exn RequestException (ucs ''2'')),
      [Delay, Request url, RetrySleep, Delay, Request url, RetrySleep, Delay, Request url])"
  by (simp add: get_chapter_try_def request_with_retry_def request_loop.simps attempt_once_def
      bindE_def net_failing_def emit_def str_nat.simps ucs_def)

lemma get_chapter_try_ok:
  "get_chapter_try parser_chapter net_ok url =
     (Inr \<lparr>cc_title = ucs ''One'', cc_content = ucs ''a <b> & c'', cc_error = None\<rparr>,
      [Delay, Request url])"
  by (simp add: get_chapter_try_def request_with_retry_def request_loop.simps attempt_once_def
      raise_for_status_def bindE_def net_ok_def response_ok_def get_chapter_page_def
      parser_chapter_def clean_content_def split_nl_def split_chr_def join_nl_def strip_def
      isspace_def any_keyword_in_def ad_keywords_def ucs_def)

lemma unit_chapter_first_fails:
  "unit_chapter parser_chapter nets_first_fails chapters 0 = None"
  "unit_chapter parser_chapter nets_first_fails chapters (Suc i) =
     Some \<lparr>ch_title = ucs ''One'', ch_content = ucs ''a <b> & c''\<rparr>"
  by (simp_all add: unit_chapter_eq nets_first_fails_def get_chapter_try_failing
      get_chapter_try_ok)

lemma unit_chapter_failing: "unit_chapter parser_chapter nets_failing chapters i = None"
  by (simp add: unit_chapter_eq nets_failing_def get_chapter_try_failing)

text \<open>
  Three references, the first of which fails, completed in the order 2, 1, 0: the batch
  holds the chapters of the references 1 and 2, in that order.
\<close>

theorem download_chapters_parallel_order_witness:
  "(0::int) < 3
   \<and> fst (download_chapters_parallel parser_chapter nets_first_fails [2, 1, 0]
        [chapter_a, chapter_b, chapter_a] 3) =
       Inr [\<lparr>ch_title = ucs ''One'', ch_content = ucs ''a <b> & c''\<rparr>,
            \<lparr>ch_title = ucs ''One'', ch_content = ucs ''a <b> & c''\<rparr>]
   \<and> succeeded parser_chapter nets_first_fails [chapter_a, chapter_b, chapter_a] = [1, 2]"
proof -
  have s: "succeeded parser_chapter nets_first_fails [chapter_a, chapter_b, chapter_a] = [1, 2]"
    using unit_chapter_first_fails [of "[chapter_a, chapter_b, chapter_a]"]
    by (simp add: succeeded_def upt_rec [of 0] upt_rec [of 1] upt_rec [of 2] upt_rec [of 3])
  from download_chapters_parallel_order
    [of parser_chapter nets_first_fails "[2, 1, 0]" "[chapter_a, chapter_b, chapter_a]" 3 "[]"]
  obtain b where b: "fst (download_chapters_parallel parser_chapter nets_first_fails [2, 1, 0]
        [chapter_a, chapter_b, chapter_a] 3) = Inr b"
    by auto
  with download_chapters_parallel_order
    [of parser_chapter nets_first_fails "[2, 1, 0]" "[chapter_a, chapter_b, chapter_a]" 3 b]
  have "b = map (\<lambda>i. the (unit_chapter parser_chapter nets_first_fails
                 [chapter_a, chapter_b, chapter_a] i)) [1, 2]"
    by (simp add: s)
  then have "b = [\<lparr>ch_title = ucs ''One'', ch_content = ucs ''a <b> & c''\<rparr>,
            \<lparr>ch_title = ucs ''One'', ch_content = ucs ''a <b> & c''\<rparr>]"
    using unit_chapter_first_fails(2) [of "[chapter_a, chapter_b, chapter_a]" 0]
      unit_chapter_first_fails(2) [of "[chapter_a, chapter_b, chapter_a]" 1]
    by (simp add: numeral_2_eq_2)
  with b s show ?thesis by simp
qed

text \<open>
  C3, as the specification states it, fails on one point: \<open>download_chapters_parallel\<close>
  does not always complete. With a concurrency bound of 0 the pool refuses to be built
  and the \<open>ValueError\<close> leaves the function, whatever the units would have done.
\<close>

theorem download_chapters_parallel_bound_counterexample:
  "fst (download_chapters_parallel parser_chapter nets_first_fails [] [chapter_a, chapter_b] 0)
     = Inl (Exn ValueError (ucs ''max_workers must be greater than 0''))"
  by (simp add: download_chapters_parallel_def)

text \<open>
  C3, amended. A failure inside a unit (the fetcher fails, the parser raises, an element
  is missing: the \<open>try\<close> of \<open>get_chapter_content\<close> ends in an exception) gives a
  \<open>ChapterContent\<close> with the error set, and \<open>get_chapter_content\<close> never raises. For
  every concurrency bound of at least 1, \<open>download_chapters_parallel\<close> completes and
  returns the chapters of the successful units: a failed unit is left out, a successful
  one is in the batch with its title and content whatever the other units did, and when
  every unit fails the batch is empty.
\<close>

theorem unit_failure_contained:
  "(fst (get_chapter_try P net url) = Inl e \<longrightarrow>
      fst (get_chapter_content P net url) = Inr (chapter_failure e) \<and>
      cc_error (chapter_failure e) \<noteq> None \<and> cc_error (chapter_failure e) \<noteq> Some [])
   \<and> (\<exists>content. fst (get_chapter_content P net url) = Inr content)
   \<and> (0 < max_workers \<longrightarrow>
        fst (download_chapters_parallel P nets sched chapters max_workers) =
          Inr (map (\<lambda>i. the (unit_chapter P nets chapters i)) (succeeded P nets chapters)) \<and>
        (\<forall>i. i < length chapters \<longrightarrow>
           (case fst (get_chapter_try P (nets i) (ci_url (chapters ! i))) of
              Inl e \<Rightarrow> i \<notin> set (succeeded P nets chapters)
            | Inr content \<Rightarrow>
                i \<in> set (succeeded P nets chapters) \<and>
                unit_chapter P nets chapters i =
                  Some \<lparr>ch_title = cc_title content, ch_content = cc_content content\<rparr>)) \<and>
        ((\<forall>i. i < length chapters \<longrightarrow>
            isl (fst (get_chapter_try P (nets i) (ci_url (chapters ! i))))) \<longrightarrow>
         fst (download_chapters_parallel P nets sched chapters max_workers) = Inr []))"
proof (intro conjI impI allI)
  assume "fst (get_chapter_try P net url) = Inl e"
  then show "fst (get_chapter_content P net url) = Inr (chapter_failure e)"
    using get_chapter_content_cases [of P net url] by auto
next
  show "cc_error (chapter_failure e) \<noteq> None" by (simp add: chapter_failure_def)
next
  show "cc_error (chapter_failure e) \<noteq> Some []" by (simp add: chapter_failure_def)
next
  show "\<exists>content. fst (get_chapter_content P net url) = Inr content"
    using get_chapter_content_cases [of P net url] by auto
next
  assume "0 < max_workers"
  then show "fst (download_chapters_parallel P nets sched chapters max_workers) =
          Inr (map (\<lambda>i. the (unit_chapter P nets chapters i)) (succeeded P nets chapters))"
    by (simp add: download_chapters_parallel_eq)
next
  fix i
  assume "i < length chapters"
  then show "case fst (get_chapter_try P (nets i) (ci_url (chapters ! i))) of
              Inl e \<Rightarrow> i \<notin> set (succeeded P nets chapters)
            | Inr content \<Rightarrow>
                i \<in> set (succeeded P nets chapters) \<and>
                unit_chapter P nets chapters i =
                  Some \<lparr>ch_title = cc_title content, ch_content = cc_content content\<rparr>"
    by (simp add: succeeded_def unit_chapter_eq split: sum.splits)
next
  assume mw: "0 < max_workers"
    and all: "\<forall>i. i < length chapters \<longrightarrow>
            isl (fst (get_chapter_try P (nets i) (ci_url (chapters ! i))))"
  have "succeeded P nets chapters = []"
    using all by (auto simp: succeeded_def unit_chapter_eq filter_empty_conv split: sum.splits)
  then show "fst (download_chapters_parallel P nets sched chapters max_workers) = Inr []"
    using mw by (simp add: download_chapters_parallel_eq)
qed

text \<open>
  On the failing network a chapter becomes the failure content of the third attempt's
  error. Of two references with the first failing, the batch holds the second alone; with
  both failing, the batch is empty.
\<close>

theorem unit_failure_contained_witness:
  "fst (get_chapter_try parser_chapter net_failing (ucs ''u'')) =
     Inl (Exn RequestException (ucs ''2''))
   \<and> fst (get_chapter_content parser_chapter net_failing (ucs ''u'')) =
       Inr (chapter_failure (Exn RequestException (ucs ''2'')))
   \<and> (0::int) < 3
   \<and> fst (download_chapters_parallel parser_chapter nets_first_fails [1, 0]
        [chapter_a, chapter_b] 3) =
       Inr [\<lparr>ch_title = ucs ''One'', ch_content = ucs ''a <b> & c''\<rparr>]
   \<and> isl (fst (get_chapter_try parser_chapter (nets_failing 0) (ci_url chapter_a)))
   \<and> isl (fst (get_chapter_try parser_chapter (nets_failing 1) (ci_url chapter_b)))
   \<and> fst (download_chapters_parallel parser_chapter nets_failing [1, 0]
        [chapter_a, chapter_b] 3) = Inr []"
proof -
  have f: "fst (get_chapter_try parser_chapter net_failing (ucs ''u'')) =
     Inl (Exn RequestException (ucs ''2''))"
    by (simp add: get_chapter_try_failing)
  have s: "succeeded parser_chapter nets_first_fails [chapter_a, chapter_b] = [1]"
    using unit_chapter_first_fails [of "[chapter_a, chapter_b]"]
    by (simp add: succeeded_def upt_rec [of 0] upt_rec [of 1] upt_rec [of 2])
  have a: "\<forall>i. i < length [chapter_a, chapter_b] \<longrightarrow>
            isl (fst (get_chapter_try parser_chapter (nets_failing i)
                   (ci_url ([chapter_a, chapter_b] ! i))))"
    by (simp add: nets_failing_def get_chapter_try_failing)
  have p: "(0::int) < 3" by simp
  have 1: "fst (get_chapter_content parser_chapter net_failing (ucs ''u'')) =
       Inr (chapter_failure (Exn RequestException (ucs ''2'')))"
    using unit_failure_contained [of parser_chapter net_failing "ucs ''u''"
        "Exn RequestException (ucs ''2'')" 3 nets_first_fails "[1, 0]" "[chapter_a, chapter_b]"] f
    by simp
  have 2: "fst (download_chapters_parallel parser_chapter nets_first_fails [1, 0]
        [chapter_a, chapter_b] 3) =
       Inr [\<lparr>ch_title = ucs ''One'', ch_content = ucs ''a <b> & c''\<rparr>]"
    using unit_failure_contained [of parser_chapter net_failing "ucs ''u''"
        "Exn RequestException (ucs ''2'')" 3 nets_first_fails "[1, 0]" "[chapter_a, chapter_b]"]
      unit_chapter_first_fails(2) [of "[chapter_a, chapter_b]" 0]
    by (simp add: s)
  have 3: "fst (download_chapters_parallel parser_chapter nets_failing [1, 0]
        [chapter_a, chapter_b] 3) = Inr []"
    using unit_failure_contained [of parser_chapter net_failing "ucs ''u''"
        "Exn RequestException (ucs ''2'')" 3 nets_failing "[1, 0]" "[chapter_a, chapter_b]"] a p
    by blast
  show ?thesis
    using f 1 2 3 by (simp add: nets_failing_def get_chapter_try_failing)
qed

text \<open>
  C8, as the specification states it, fails: for the empty list the pool is built (and
  shut down) all the same; only no unit is submitted to it.
\<close>

theorem download_chapters_parallel_empty_counterexample:
  "PoolCreated 3 \<in> set (snd (download_chapters_parallel parser_chapter nets_first_fails [] [] 3))"
  by (simp add: download_chapters_parallel_def emit_def)

text \<open>
  C8, amended. For the empty list and every concurrency bound of at least 1,
  \<open>download_chapters_parallel\<close> returns the empty batch; no unit is submitted and no
  result is awaited, so no unit is executed; the pool is built and shut down.
\<close>

theorem download_chapters_parallel_empty:
  "0 < max_workers \<Longrightarrow>
   download_chapters_parallel P nets sched [] max_workers =
     (Inr [], [PoolCreated max_workers, PoolShutdown])"
  by (simp add: download_chapters_parallel_def emit_def)

theorem download_chapters_parallel_empty_witness:
  "(0::int) < 3
   \<and> download_chapters_parallel parser_chapter nets_first_fails [1, 0] [] 3 =
       (Inr [], [PoolCreated 3, PoolShutdown])"
  using download_chapters_parallel_empty [of 3 parser_chapter nets_first_fails "[1, 0]"]
  by simp

end
